theory Spec2Isabelle
  imports Main "HOL-Library.Word"
begin

unbundle bit_operations_syntax

section \<open>GCVideo DVI firmware: persistent settings (Firmware/settings.c)\<close>

text \<open>
  The settings module keeps the user's configuration in one erase sector of the SPI
  flash. The sector is used as a log of 256 slots of 256 bytes; each save programs a
  record into the next lower slot and the boot scan looks for the first slot, in
  ascending order, that holds a valid record.
\<close>

subsection \<open>Machine types and constants\<close>

type_synonym uint8_t = "8 word"
type_synonym uint16_t = "16 word"
type_synonym uint32_t = "32 word"

text \<open>An \<open>int8_t\<close> is kept as its 8-bit pattern; \<open>sint\<close> reads its value.\<close>

type_synonym int8_t = "8 word"

definition SETTINGS_VERSION :: uint8_t where "SETTINGS_VERSION = 5"
definition SETTINGS_SIZE_V4 :: uint8_t where "SETTINGS_SIZE_V4 = 60"
definition SETTINGS_SIZE_V5 :: uint8_t where "SETTINGS_SIZE_V5 = 63"

definition SET_FLAG_RESBOX :: uint8_t where "SET_FLAG_RESBOX = push_bit 0 1"
definition SET_FLAG_MUTE :: uint8_t where "SET_FLAG_MUTE = push_bit 1 1"

text \<open>
  Modelled from the spec: \<open>VIDMODE_COUNT\<close> (settings.h) and \<open>NUM_IRCODES\<close> (irrx.h)
  are declared in headers that are not part of the sources at hand. The six
  initialisers of \<open>video_out_lines\<close> and \<open>mode_names\<close> give the mode count, and the
  record sizes 60 and 63 of the persisted layout (four header bytes, one 32-bit word
  per video mode, two 32-bit words, the IR code table, three picture bytes) then fix
  the length of the IR code table at six words.
\<close>

definition VIDMODE_COUNT :: nat where "VIDMODE_COUNT = 6"
definition NUM_IRCODES :: nat where "NUM_IRCODES = 6"

text \<open>
  The enumeration \<open>video_mode_t\<close>, in the order of \<open>mode_names\<close>, and the array index
  of each mode.
\<close>

datatype video_mode_t =
  VIDMODE_240p | VIDMODE_288p | VIDMODE_480i | VIDMODE_576i | VIDMODE_480p | VIDMODE_576p

fun mode_index :: "video_mode_t \<Rightarrow> nat" where
  "mode_index VIDMODE_240p = 0"
| "mode_index VIDMODE_288p = 1"
| "mode_index VIDMODE_480i = 2"
| "mode_index VIDMODE_576i = 3"
| "mode_index VIDMODE_480p = 4"
| "mode_index VIDMODE_576p = 5"

text \<open>
  The constants of \<open>portdefs.h\<close> that the module uses are parameters of the model:
  the flash offset of the settings sector, the bit positions inside the image control
  register, and the flag and setting bits of the video interface.
\<close>

record portdefs =
  SETTINGS_OFFSET :: nat
  VIDEOIF_IMGCTL_CONTRAST_SHIFT :: nat
  VIDEOIF_IMGCTL_BRIGHTNESS_SHIFT :: nat
  VIDEOIF_IMGCTL_SATURATION_SHIFT :: nat
  VIDEOIF_FLAG_PROGRESSIVE :: uint32_t
  VIDEOIF_FLAG_PAL :: uint32_t
  VIDEOIF_FLAG_31KHZ :: uint32_t
  VIDEOIF_SET_CABLEDETECT :: uint32_t
  VIDEOIF_SET_LD_ENABLE :: uint32_t
  VIDEOIF_SET_SL_ALTERNATE :: uint32_t

subsection \<open>The SPI flash\<close>

text \<open>
  The flash is a byte array; \<open>erase_cycles\<close> counts the sector erases the device has
  seen, which is what wears it out.
\<close>

record spiflash =
  cells :: "nat \<Rightarrow> uint8_t"
  erase_cycles :: nat

text \<open>
  Modelled from the spec: \<open>spiflash_read_block\<close> (spiflash.h, implementation not at
  hand) returns exactly \<open>len\<close> bytes starting at \<open>offset\<close>.
\<close>

definition spiflash_read_block :: "spiflash \<Rightarrow> nat \<Rightarrow> nat \<Rightarrow> uint8_t list" where
  "spiflash_read_block fl offset len = map (cells fl) [offset..<offset + len]"

text \<open>
  Modelled from the spec: \<open>spiflash_erase_sector\<close> (spiflash.h, implementation not at
  hand) resets every byte of the sector that starts at the given base offset to the
  fill value \<open>0xFF\<close>; the sector is 256 slots of 256 bytes.
\<close>

definition SECTOR_SIZE :: nat where "SECTOR_SIZE = 256 * 256"

definition spiflash_erase_sector :: "spiflash \<Rightarrow> nat \<Rightarrow> spiflash" where
  "spiflash_erase_sector fl base =
     fl\<lparr>cells := (\<lambda>a. if base \<le> a \<and> a < base + SECTOR_SIZE then 0xFF else cells fl a),
        erase_cycles := erase_cycles fl + 1\<rparr>"

text \<open>
  Modelled from the spec: \<open>spiflash_write_page\<close> (spiflash.h, implementation not at
  hand) programs the bytes at \<open>offset\<close>; programming can only clear bits, so a cell
  ends up as the conjunction of its old content and the byte written, which is the
  byte written when the cell was erased.
\<close>

definition spiflash_write_page :: "spiflash \<Rightarrow> nat \<Rightarrow> uint8_t list \<Rightarrow> spiflash" where
  "spiflash_write_page fl offset bytes =
     fl\<lparr>cells := (\<lambda>a. if offset \<le> a \<and> a < offset + length bytes
                        then cells fl a AND bytes ! (a - offset) else cells fl a)\<rparr>"

subsection \<open>The stored record \<open>storedsettings_t\<close>\<close>

text \<open>
  The code reads a record from flash as raw bytes, sums it through a \<open>uint8_t *\<close>
  and reads its fields, so the struct is modelled as its bytes with the fields at
  their offsets: four \<open>uint8_t\<close>, then the naturally aligned 32-bit words, then the
  three \<open>int8_t\<close> and one byte of padding, 64 bytes in all. A 32-bit field occupies
  four bytes, here with the least significant byte first; the code stores and loads
  the words in the same native order, and nothing below depends on which one it is.
\<close>

type_synonym storedsettings_t = "uint8_t list"

definition sizeof_storedsettings_t :: nat where "sizeof_storedsettings_t = 64"

definition off_checksum :: nat where "off_checksum = 0"
definition off_version :: nat where "off_version = 1"
definition off_flags :: nat where "off_flags = 2"
definition off_volume :: nat where "off_volume = 3"
definition off_video_settings :: nat where "off_video_settings = 4"
definition off_osdbg_settings :: nat where "off_osdbg_settings = 4 + 4 * VIDMODE_COUNT"
definition off_mode_switch_delay :: nat where "off_mode_switch_delay = 8 + 4 * VIDMODE_COUNT"
definition off_ir_codes :: nat where "off_ir_codes = 12 + 4 * VIDMODE_COUNT"
definition off_brightness :: nat where
  "off_brightness = 12 + 4 * VIDMODE_COUNT + 4 * NUM_IRCODES"
definition off_contrast :: nat where
  "off_contrast = 13 + 4 * VIDMODE_COUNT + 4 * NUM_IRCODES"
definition off_saturation :: nat where
  "off_saturation = 14 + 4 * VIDMODE_COUNT + 4 * NUM_IRCODES"

definition get8 :: "nat \<Rightarrow> storedsettings_t \<Rightarrow> uint8_t" where
  "get8 off rset = rset ! off"

definition put8 :: "nat \<Rightarrow> uint8_t \<Rightarrow> storedsettings_t \<Rightarrow> storedsettings_t" where
  "put8 off v rset = rset[off := v]"

definition get32 :: "nat \<Rightarrow> storedsettings_t \<Rightarrow> uint32_t" where
  "get32 off rset =
     ucast (rset ! off) OR push_bit 8 (ucast (rset ! (off + 1)))
       OR push_bit 16 (ucast (rset ! (off + 2))) OR push_bit 24 (ucast (rset ! (off + 3)))"

definition put32 :: "nat \<Rightarrow> uint32_t \<Rightarrow> storedsettings_t \<Rightarrow> storedsettings_t" where
  "put32 off w rset =
     rset[off := ucast w, off + 1 := ucast (drop_bit 8 w),
         off + 2 := ucast (drop_bit 16 w), off + 3 := ucast (drop_bit 24 w)]"

text \<open>The checksum loops: \<open>for (j = lo; j < hi; j++) sum += byteset[j]\<close>, in 8 bits.\<close>

definition byte_sum :: "storedsettings_t \<Rightarrow> nat \<Rightarrow> nat \<Rightarrow> uint8_t" where
  "byte_sum byteset lo hi = fold (\<lambda>j sum. sum + byteset ! j) [lo..<hi] 0"

subsection \<open>The live settings and the hardware registers\<close>

record videoif =
  VIDEOIF_flags :: uint32_t
  VIDEOIF_xres :: uint32_t
  VIDEOIF_yres :: uint32_t
  VIDEOIF_settings :: uint32_t
  VIDEOIF_osd_bg :: uint32_t
  VIDEOIF_audio_volume :: uint32_t
  VIDEOIF_image_controls :: uint32_t

text \<open>
  The global variables of the module, the IR code table of \<open>irrx.h\<close>, the video
  interface registers and the flash. The arrays are lists; they have
  \<open>VIDMODE_COUNT\<close> and \<open>NUM_IRCODES\<close> elements.
\<close>

record sys =
  video_settings :: "uint32_t list"
  video_settings_global :: uint32_t
  osdbg_settings :: uint32_t
  mode_switch_delay :: uint32_t
  resbox_enabled :: bool
  current_videomode :: video_mode_t
  audio_volume :: uint8_t
  audio_mute :: bool
  picture_brightness :: int8_t
  picture_contrast :: int8_t
  picture_saturation :: int8_t
  ir_codes :: "uint32_t list"
  current_setid :: uint16_t
  VIDEOIF :: videoif
  flash :: spiflash

definition arrays_ok :: "sys \<Rightarrow> bool" where
  "arrays_ok s \<longleftrightarrow>
     length (video_settings s) = VIDMODE_COUNT \<and> length (ir_codes s) = NUM_IRCODES"

subsection \<open>\<open>update_imagecontrols\<close> and \<open>detect_inputmode\<close>\<close>

definition update_imagecontrols :: "portdefs \<Rightarrow> sys \<Rightarrow> sys" where
  "update_imagecontrols pd s =
     (let contrast = (picture_contrast s + 0x80 :: uint8_t);
          saturation =
            (word_of_int (((sint (picture_saturation s) + 0x80) * uint contrast) div 128)
               :: uint16_t);
          imgctl =
            push_bit (VIDEOIF_IMGCTL_CONTRAST_SHIFT pd) (ucast contrast :: uint32_t)
              OR push_bit (VIDEOIF_IMGCTL_BRIGHTNESS_SHIFT pd) (ucast (picture_brightness s))
              OR push_bit (VIDEOIF_IMGCTL_SATURATION_SHIFT pd) (ucast saturation)
      in s\<lparr>VIDEOIF := (VIDEOIF s)\<lparr>VIDEOIF_image_controls := imgctl\<rparr>\<rparr>)"

definition detect_inputmode :: "portdefs \<Rightarrow> sys \<Rightarrow> video_mode_t" where
  "detect_inputmode pd s =
     (let PROGRESSIVE = VIDEOIF_FLAG_PROGRESSIVE pd;
          PAL = VIDEOIF_FLAG_PAL pd;
          KHZ31 = VIDEOIF_FLAG_31KHZ pd;
          cur_flags = VIDEOIF_flags (VIDEOIF s) AND (PROGRESSIVE OR PAL OR KHZ31)
      in if cur_flags = (PAL OR KHZ31) \<or> cur_flags = (PAL OR KHZ31 OR PROGRESSIVE)
           then VIDMODE_576p
         else if cur_flags = (PAL OR PROGRESSIVE) then VIDMODE_288p
         else if cur_flags = PAL then VIDMODE_576i
         else if cur_flags = KHZ31 \<or> cur_flags = (KHZ31 OR PROGRESSIVE) then VIDMODE_480p
         else if cur_flags = PROGRESSIVE then VIDMODE_240p
         else VIDMODE_480i)"

subsection \<open>\<open>settings_load\<close>\<close>

text \<open>The \<open>switch\<close> that gives the size of a record of each version.\<close>

definition version_size :: "uint8_t \<Rightarrow> uint8_t" where
  "version_size v = (if v = 4 then SETTINGS_SIZE_V4 else if v = 5 then SETTINGS_SIZE_V5 else 0)"

text \<open>
  The body of the first \<open>if\<close> of the scan loop: a record of version 5 or 4 is valid
  when the sum of its bytes from index 1 up to the size of its version equals its
  checksum byte.
\<close>

definition record_valid :: "storedsettings_t \<Rightarrow> bool" where
  "record_valid rset =
     (if get8 off_version rset = SETTINGS_VERSION \<or> get8 off_version rset = 4 then
        (let size = version_size (get8 off_version rset);
             sum = byte_sum rset 1 (unat size)
         in size \<noteq> 0 \<and> sum = get8 off_checksum rset)
      else False)"

text \<open>
  The scan loop from index \<open>i\<close> on. It returns the value of \<open>i\<close> at the end of the
  loop and the record read last when \<open>valid\<close> is set, \<open>None\<close> when it is not.
\<close>

function scan_from :: "portdefs \<Rightarrow> spiflash \<Rightarrow> nat \<Rightarrow> nat \<times> storedsettings_t option" where
  "scan_from pd fl i =
     (if i < 256 then
        (let rset = spiflash_read_block fl (SETTINGS_OFFSET pd + 256 * i) sizeof_storedsettings_t
         in if record_valid rset then (i, Some rset)
            else if get8 off_version rset \<noteq> 0xFF \<or> get8 off_checksum rset \<noteq> 0xFF
              then (i, None)
            else scan_from pd fl (i + 1))
      else (i, None))"
  by pat_completeness auto
termination
  by (relation "measure (\<lambda>(pd, fl, i). 256 - i)") auto

declare scan_from.simps [simp del]

definition settings_load :: "portdefs \<Rightarrow> sys \<Rightarrow> sys" where
  "settings_load pd s =
     (case scan_from pd (flash s) 0 of
        (i, None) \<Rightarrow> s\<lparr>current_setid := of_nat i\<rparr>
      | (i, Some rset) \<Rightarrow>
          (let s = s\<lparr>current_setid := of_nat i\<rparr>;
               s = s\<lparr>video_settings :=
                      fold (\<lambda>i vs. vs[i := get32 (off_video_settings + 4 * i) rset])
                        [0..<VIDMODE_COUNT] (video_settings s)\<rparr>;
               s = s\<lparr>osdbg_settings := get32 off_osdbg_settings rset\<rparr>;
               s = s\<lparr>mode_switch_delay := get32 off_mode_switch_delay rset\<rparr>;
               s = s\<lparr>resbox_enabled := (get8 off_flags rset AND SET_FLAG_RESBOX \<noteq> 0)\<rparr>;
               s = s\<lparr>audio_volume := get8 off_volume rset AND 0xFF\<rparr>;
               s = s\<lparr>audio_mute := (get8 off_flags rset AND SET_FLAG_MUTE \<noteq> 0)\<rparr>;
               s = s\<lparr>ir_codes :=
                      map (\<lambda>i. get32 (off_ir_codes + 4 * i) rset) [0..<NUM_IRCODES]\<rparr>
           in if 5 \<le> get8 off_version rset then
                update_imagecontrols pd
                  (s\<lparr>picture_brightness := get8 off_brightness rset,
                     picture_contrast := get8 off_contrast rset,
                     picture_saturation := get8 off_saturation rset\<rparr>)
              else s))"

subsection \<open>\<open>settings_save\<close>\<close>

text \<open>
  The first part of \<open>settings_save\<close>, "create settings record": the zeroed struct
  with the live settings stored into its fields.
\<close>

definition create_record :: "sys \<Rightarrow> storedsettings_t" where
  "create_record s =
     (let rset = replicate sizeof_storedsettings_t (0 :: uint8_t);
          rset = put8 off_version SETTINGS_VERSION rset;
          rset = fold (\<lambda>i. put32 (off_video_settings + 4 * i) (video_settings s ! i))
                   [0..<VIDMODE_COUNT] rset;
          rset = put32 off_osdbg_settings (osdbg_settings s) rset;
          rset = put32 off_mode_switch_delay (mode_switch_delay s) rset;
          rset = (if resbox_enabled s
                  then put8 off_flags (get8 off_flags rset OR SET_FLAG_RESBOX) rset else rset);
          rset = put8 off_volume (audio_volume s) rset;
          rset = (if audio_mute s
                  then put8 off_flags (get8 off_flags rset OR SET_FLAG_MUTE) rset else rset);
          rset = fold (\<lambda>i. put32 (off_ir_codes + 4 * i) (ir_codes s ! i))
                   [0..<NUM_IRCODES] rset;
          rset = put8 off_brightness (picture_brightness s) rset;
          rset = put8 off_contrast (picture_contrast s) rset
      in put8 off_saturation (picture_saturation s) rset)"

text \<open>
  The second part, "calculate checksum": the sum of all bytes of the struct but the
  first is stored into the checksum field. This is the record that is programmed.
\<close>

definition make_record :: "sys \<Rightarrow> storedsettings_t" where
  "make_record s =
     (let rset = create_record s;
          sum = byte_sum rset 1 sizeof_storedsettings_t
      in put8 off_checksum sum rset)"

definition settings_save :: "portdefs \<Rightarrow> sys \<Rightarrow> sys" where
  "settings_save pd s =
     (let rset = make_record s;
          s = (if current_setid s = 0
               then s\<lparr>flash := spiflash_erase_sector (flash s) (SETTINGS_OFFSET pd),
                      current_setid := 256\<rparr>
               else s);
          s = s\<lparr>current_setid := current_setid s - 1\<rparr>
      in s\<lparr>flash := spiflash_write_page (flash s)
                       (SETTINGS_OFFSET pd + 256 * unat (current_setid s)) rset\<rparr>)"

subsection \<open>\<open>settings_init\<close>\<close>

definition settings_init :: "portdefs \<Rightarrow> sys \<Rightarrow> sys" where
  "settings_init pd s =
     (let LD = VIDEOIF_SET_LD_ENABLE pd;
          SL = VIDEOIF_SET_SL_ALTERNATE pd;
          s = s\<lparr>resbox_enabled := True\<rparr>;
          s = s\<lparr>video_settings_global := VIDEOIF_SET_CABLEDETECT pd\<rparr>;
          s = s\<lparr>video_settings := (video_settings s)[mode_index VIDMODE_240p := 0x80 OR LD]\<rparr>;
          s = s\<lparr>video_settings := (video_settings s)[mode_index VIDMODE_288p := 0x80 OR LD]\<rparr>;
          s = s\<lparr>video_settings :=
                 (video_settings s)[mode_index VIDMODE_480i := 0x80 OR LD OR SL]\<rparr>;
          s = s\<lparr>video_settings :=
                 (video_settings s)[mode_index VIDMODE_576i := 0x80 OR LD OR SL]\<rparr>;
          s = s\<lparr>video_settings := (video_settings s)[mode_index VIDMODE_480p := 0x80]\<rparr>;
          s = s\<lparr>video_settings := (video_settings s)[mode_index VIDMODE_576p := 0x80]\<rparr>;
          s = s\<lparr>osdbg_settings := 0x501bf8\<rparr>;
          s = s\<lparr>picture_brightness := 0, picture_contrast := 0, picture_saturation := 0\<rparr>;
          s = s\<lparr>audio_mute := False, audio_volume := 255, mode_switch_delay := 0\<rparr>;
          s = s\<lparr>current_videomode := detect_inputmode pd s\<rparr>
      in s\<lparr>VIDEOIF := (VIDEOIF s)
             \<lparr>VIDEOIF_settings :=
                video_settings s ! mode_index (current_videomode s) OR video_settings_global s,
              VIDEOIF_osd_bg := osdbg_settings s,
              VIDEOIF_audio_volume := 255,
              VIDEOIF_image_controls := 0x00800080\<rparr>\<rparr>)"

subsection \<open>Observations on the flash and on the live settings\<close>

text \<open>The 64 bytes that the scan loop reads from slot \<open>i\<close>.\<close>

definition read_slot :: "portdefs \<Rightarrow> spiflash \<Rightarrow> nat \<Rightarrow> storedsettings_t" where
  "read_slot pd fl i = spiflash_read_block fl (SETTINGS_OFFSET pd + 256 * i) sizeof_storedsettings_t"

text \<open>
  The loop's test for an empty slot, negated in the source: the version byte and the
  checksum byte both read \<open>0xFF\<close>.
\<close>

definition slot_blank :: "portdefs \<Rightarrow> spiflash \<Rightarrow> nat \<Rightarrow> bool" where
  "slot_blank pd fl i \<longleftrightarrow>
     get8 off_version (read_slot pd fl i) = 0xFF \<and> get8 off_checksum (read_slot pd fl i) = 0xFF"

text \<open>A slot in its erased state: every one of its 256 bytes is the fill value.\<close>

definition slot_erased :: "portdefs \<Rightarrow> spiflash \<Rightarrow> nat \<Rightarrow> bool" where
  "slot_erased pd fl i \<longleftrightarrow>
     list_all (\<lambda>b. b = 0xFF) (spiflash_read_block fl (SETTINGS_OFFSET pd + 256 * i) 256)"

text \<open>The settings that a record carries, as a tuple of the live variables.\<close>

definition saved_settings ::
  "sys \<Rightarrow> uint32_t list \<times> uint32_t \<times> uint32_t \<times> bool \<times> uint8_t \<times> bool \<times> uint32_t list
         \<times> int8_t \<times> int8_t \<times> int8_t" where
  "saved_settings s =
     (video_settings s, osdbg_settings s, mode_switch_delay s, resbox_enabled s, audio_volume s,
      audio_mute s, ir_codes s,
      picture_brightness s, picture_contrast s, picture_saturation s)"

text \<open>
  A single-bit error in a stored record: bit \<open>k\<close> of the byte at position \<open>p\<close> is
  inverted.
\<close>

definition flip_record_bit :: "nat \<Rightarrow> nat \<Rightarrow> storedsettings_t \<Rightarrow> storedsettings_t" where
  "flip_record_bit p k rset = rset[p := flip_bit k (rset ! p)]"

text \<open>Programming a record into slot \<open>i\<close>, as \<open>settings_save\<close> addresses it.\<close>

definition program_slot :: "portdefs \<Rightarrow> spiflash \<Rightarrow> nat \<Rightarrow> uint8_t list \<Rightarrow> spiflash" where
  "program_slot pd fl i d = spiflash_write_page fl (SETTINGS_OFFSET pd + 256 * i) d"

text \<open>
  Modelled from the spec: the encoder of the legacy record version 4 is not part of
  the sources at hand (\<open>settings_save\<close> writes version 5 only). A V4 record is the
  same layout truncated before the three picture-control fields: 60 bytes, version
  byte 4, and a checksum that is the 8-bit sum of its bytes from index 1 on.
\<close>

definition legacy_record :: "sys \<Rightarrow> uint8_t list" where
  "legacy_record s =
     (let rset = take (unat SETTINGS_SIZE_V4) (put8 off_version 4 (create_record s));
          sum = byte_sum rset 1 (unat SETTINGS_SIZE_V4)
      in put8 off_checksum sum rset)"

subsection \<open>Concrete states\<close>

text \<open>
  A configuration of the hardware constants, an erased flash and a state of the live
  settings, on which the properties below are instantiated.
\<close>

definition example_portdefs :: portdefs where
  "example_portdefs =
     \<lparr>SETTINGS_OFFSET = 0x70000,
      VIDEOIF_IMGCTL_CONTRAST_SHIFT = 0,
      VIDEOIF_IMGCTL_BRIGHTNESS_SHIFT = 8,
      VIDEOIF_IMGCTL_SATURATION_SHIFT = 16,
      VIDEOIF_FLAG_PROGRESSIVE = 1,
      VIDEOIF_FLAG_PAL = 2,
      VIDEOIF_FLAG_31KHZ = 4,
      VIDEOIF_SET_CABLEDETECT = 0x1000,
      VIDEOIF_SET_LD_ENABLE = 0x2000,
      VIDEOIF_SET_SL_ALTERNATE = 0x4000\<rparr>"

definition erased_flash :: spiflash where
  "erased_flash = \<lparr>cells = (\<lambda>a. 0xFF), erase_cycles = 0\<rparr>"

definition example_sys :: sys where
  "example_sys =
     \<lparr>video_settings = [0x80, 0x81, 0x82, 0x83, 0x84, 0x85],
      video_settings_global = 0,
      osdbg_settings = 0x501bf8,
      mode_switch_delay = 3,
      resbox_enabled = True,
      current_videomode = VIDMODE_480i,
      audio_volume = 200,
      audio_mute = False,
      picture_brightness = 0,
      picture_contrast = 0,
      picture_saturation = 0,
      ir_codes = [1, 2, 3, 4, 5, 6],
      current_setid = 0,
      VIDEOIF = \<lparr>VIDEOIF_flags = 0, VIDEOIF_xres = 0, VIDEOIF_yres = 0, VIDEOIF_settings = 0,
                  VIDEOIF_osd_bg = 0, VIDEOIF_audio_volume = 0, VIDEOIF_image_controls = 0\<rparr>,
      flash = erased_flash\<rparr>"

text \<open>The same state over a flash whose slot 0 has been programmed with zero bytes.\<close>

definition zeroed_slot0_sys :: sys where
  "zeroed_slot0_sys =
     example_sys\<lparr>flash := program_slot example_portdefs erased_flash 0 (replicate 64 0)\<rparr>"

text \<open>A second state of the live settings; its picture bytes sum to \<open>0xFF\<close>.\<close>

definition other_sys :: sys where
  "other_sys =
     example_sys\<lparr>video_settings := [0x180, 0x181, 0x182, 0x183, 0x184, 0x185],
                 resbox_enabled := False, audio_mute := True, audio_volume := 17,
                 picture_brightness := 0xFF, picture_contrast := 0, picture_saturation := 0\<rparr>"

text \<open>
  Two records that do not decode: a saved record with one bit of its checksum byte
  inverted, and a slot whose first two bytes were left at \<open>0xFF\<close> while the
  rest was programmed with zeros.
\<close>

definition damaged_record :: storedsettings_t where
  "damaged_record = flip_record_bit off_checksum 0 (make_record example_sys)"

definition stray_record :: storedsettings_t where
  "stray_record = 0xFF # 0xFF # replicate 62 0"

text \<open>Flash contents built from the erased flash by programming single slots.\<close>

definition valid_below_damaged_flash :: spiflash where
  "valid_below_damaged_flash =
     program_slot example_portdefs
       (program_slot example_portdefs erased_flash 2 damaged_record) 1 (make_record example_sys)"

definition damaged_below_valid_flash :: spiflash where
  "damaged_below_valid_flash =
     program_slot example_portdefs
       (program_slot example_portdefs erased_flash 2 (make_record example_sys)) 1 damaged_record"

definition stray_flash :: spiflash where
  "stray_flash =
     program_slot example_portdefs
       (program_slot example_portdefs erased_flash 1 (make_record example_sys)) 0 stray_record"

definition two_records_flash :: spiflash where
  "two_records_flash =
     program_slot example_portdefs
       (program_slot example_portdefs erased_flash 5 (legacy_record example_sys)) 3
       (make_record other_sys)"

text \<open>
  A state over the flash whose slot 0 holds the stray bytes and whose slot 1 holds a
  saved record, and the bytes that slot 0 holds once that record has been programmed
  over the stray bytes.
\<close>

definition stray_sys :: sys where
  "stray_sys = other_sys\<lparr>flash := stray_flash\<rparr>"

definition overwritten_record :: storedsettings_t where
  "overwritten_record = 88 # 5 # replicate 62 0"

text \<open>
  Two states whose picture controls are not at zero, over a flash that holds one
  legacy record.
\<close>

definition tinted_sys :: sys where
  "tinted_sys =
     example_sys\<lparr>picture_brightness := 9,
                 flash := program_slot example_portdefs erased_flash 0 (legacy_record other_sys)\<rparr>"

definition vivid_sys :: sys where
  "vivid_sys =
     example_sys\<lparr>picture_contrast := 0xF0, picture_saturation := 0x10,
                 flash := program_slot example_portdefs erased_flash 7 (legacy_record other_sys)\<rparr>"

section \<open>Auxiliary lemmas\<close>

subsection \<open>Bytes, words and checksums\<close>

lemma get32_bytes:
  "(ucast (ucast w :: uint8_t) :: uint32_t) OR push_bit 8 (ucast (ucast (drop_bit 8 w) :: uint8_t))
     OR push_bit 16 (ucast (ucast (drop_bit 16 w) :: uint8_t))
     OR push_bit 24 (ucast (ucast (drop_bit 24 w) :: uint8_t)) = (w :: uint32_t)"
proof (rule bit_word_eqI)
  fix n
  assume "n < LENGTH(32)"
  then consider "n < 8" | "8 \<le> n" "n < 16" | "16 \<le> n" "n < 24" | "24 \<le> n" "n < 32"
    by fastforce
  then show "bit (ucast (ucast w :: uint8_t) OR push_bit 8 (ucast (ucast (drop_bit 8 w) :: uint8_t))
     OR push_bit 16 (ucast (ucast (drop_bit 16 w) :: uint8_t))
     OR push_bit 24 (ucast (ucast (drop_bit 24 w) :: uint8_t)) :: uint32_t) n = bit w n"
    by cases (auto simp: bit_simps)
qed

lemma length_put8 [simp]: "length (put8 off v bs) = length bs"
  by (simp add: put8_def)

lemma length_put32 [simp]: "length (put32 off w bs) = length bs"
  by (simp add: put32_def)

lemma get32_put32_same: "off + 4 \<le> length bs \<Longrightarrow> get32 off (put32 off w bs) = w"
  by (simp add: get32_def put32_def get32_bytes)

lemma get32_put32_other:
  "a + 4 \<le> b \<or> b + 4 \<le> a \<Longrightarrow> get32 a (put32 b w bs) = get32 a bs"
  by (auto simp add: get32_def put32_def)

lemma get32_put8_other: "b < a \<or> a + 4 \<le> b \<Longrightarrow> get32 a (put8 b v bs) = get32 a bs"
  by (auto simp add: get32_def put8_def)

lemma get8_put8: "get8 a (put8 b v bs) = (if a = b \<and> b < length bs then v else get8 a bs)"
  by (cases "b < length bs") (auto simp add: get8_def put8_def list_update_beyond not_less)

lemma get8_put32_other: "a < b \<or> b + 4 \<le> a \<Longrightarrow> get8 a (put32 b w bs) = get8 a bs"
  by (auto simp add: get8_def put32_def)

lemma upt6: "[0..<6] = [0,1,2,3,4,5]"
  by (simp add: upt_rec)

lemmas layout_defs = off_checksum_def off_version_def off_flags_def off_volume_def
  off_video_settings_def off_osdbg_settings_def off_mode_switch_delay_def off_ir_codes_def
  off_brightness_def off_contrast_def off_saturation_def VIDMODE_COUNT_def NUM_IRCODES_def
  sizeof_storedsettings_t_def

lemma byte_sum_Suc: "lo \<le> hi \<Longrightarrow> byte_sum bs lo (Suc hi) = byte_sum bs lo hi + bs ! hi"
  by (simp add: byte_sum_def)

lemma byte_sum_update_out:
  "p < lo \<or> hi \<le> p \<Longrightarrow> byte_sum (bs[p := v]) lo hi = byte_sum bs lo hi"
proof (induction hi)
  case 0
  then show ?case by (simp add: byte_sum_def)
next
  case (Suc hi)
  show ?case
  proof (cases "lo \<le> hi")
    case True
    with Suc show ?thesis by (auto simp add: byte_sum_Suc)
  next
    case False
    then show ?thesis by (simp add: byte_sum_def)
  qed
qed

lemma byte_sum_update_in:
  "lo \<le> p \<Longrightarrow> p < hi \<Longrightarrow> p < length bs \<Longrightarrow>
   byte_sum (bs[p := v]) lo hi = byte_sum bs lo hi - bs ! p + v"
proof (induction hi)
  case 0
  then show ?case by simp
next
  case (Suc hi)
  show ?case
  proof (cases "p = hi")
    case True
    with Suc.prems show ?thesis
      by (simp add: byte_sum_Suc byte_sum_update_out)
  next
    case False
    with Suc show ?thesis by (simp add: byte_sum_Suc)
  qed
qed

lemma length_create_record: "length (create_record s) = 64"
  by (simp add: create_record_def Let_def layout_defs upt6)

lemma length_make_record: "length (make_record s) = 64"
  by (simp add: make_record_def Let_def length_create_record)

lemmas frame_simps = get8_put8 get8_put32_other get32_put32_same get32_put32_other
  get32_put8_other

lemma lt6_cases: "i < (6::nat) \<Longrightarrow> i = 0 \<or> i = 1 \<or> i = 2 \<or> i = 3 \<or> i = 4 \<or> i = 5"
  by arith

lemma create_record_version: "get8 off_version (create_record s) = 5"
  by (simp add: create_record_def Let_def layout_defs upt6 frame_simps SETTINGS_VERSION_def)

lemma create_record_video:
  "i < 6 \<Longrightarrow> get32 (off_video_settings + 4 * i) (create_record s) = video_settings s ! i"
  by (drule lt6_cases) (auto simp add: create_record_def Let_def layout_defs upt6 frame_simps)

lemma create_record_ir:
  "i < 6 \<Longrightarrow> get32 (off_ir_codes + 4 * i) (create_record s) = ir_codes s ! i"
  by (drule lt6_cases) (auto simp add: create_record_def Let_def layout_defs upt6 frame_simps)

lemma create_record_osdbg: "get32 off_osdbg_settings (create_record s) = osdbg_settings s"
  by (simp add: create_record_def Let_def layout_defs upt6 frame_simps)

lemma create_record_delay: "get32 off_mode_switch_delay (create_record s) = mode_switch_delay s"
  by (simp add: create_record_def Let_def layout_defs upt6 frame_simps)

lemma create_record_volume: "get8 off_volume (create_record s) = audio_volume s"
  by (simp add: create_record_def Let_def layout_defs upt6 frame_simps)

lemma create_record_picture:
  "get8 off_brightness (create_record s) = picture_brightness s"
  "get8 off_contrast (create_record s) = picture_contrast s"
  "get8 off_saturation (create_record s) = picture_saturation s"
  by (simp_all add: create_record_def Let_def layout_defs upt6 frame_simps)

lemma create_record_flags:
  "get8 off_flags (create_record s) =
     (if resbox_enabled s then SET_FLAG_RESBOX else 0) OR (if audio_mute s then SET_FLAG_MUTE else 0)"
  by (simp add: create_record_def Let_def layout_defs upt6 frame_simps get8_def[of _ "replicate _ _"])

lemma create_record_pad: "create_record s ! 63 = 0"
  by (simp add: create_record_def Let_def layout_defs upt6 put8_def put32_def)

lemma get8_make_record: "0 < a \<Longrightarrow> get8 a (make_record s) = get8 a (create_record s)"
  by (simp add: make_record_def Let_def off_checksum_def get8_put8)

lemma get32_make_record: "0 < a \<Longrightarrow> get32 a (make_record s) = get32 a (create_record s)"
  by (simp add: make_record_def Let_def off_checksum_def get32_put8_other)

lemma record_valid_iff:
  "record_valid rs \<longleftrightarrow>
     get8 off_version rs = 5 \<and> byte_sum rs 1 63 = get8 off_checksum rs \<or>
     get8 off_version rs = 4 \<and> byte_sum rs 1 60 = get8 off_checksum rs"
  by (auto simp add: record_valid_def Let_def SETTINGS_VERSION_def SETTINGS_SIZE_V4_def
      SETTINGS_SIZE_V5_def version_size_def)

lemma byte_sum_make_record:
  "0 < lo \<Longrightarrow> byte_sum (make_record s) lo n = byte_sum (create_record s) lo n"
  by (simp add: make_record_def Let_def off_checksum_def put8_def byte_sum_update_out)

lemma make_record_checksum:
  "get8 off_checksum (make_record s) = byte_sum (create_record s) 1 64"
  by (simp add: make_record_def Let_def layout_defs get8_put8 length_create_record)

lemma off_pos:
  "0 < off_version" "0 < off_flags" "0 < off_volume" "0 < off_video_settings"
  "0 < off_osdbg_settings" "0 < off_mode_switch_delay" "0 < off_ir_codes"
  "0 < off_brightness" "0 < off_contrast" "0 < off_saturation"
  by (simp_all add: layout_defs)

lemma make_record_version: "get8 off_version (make_record s) = 5"
  by (simp add: get8_make_record off_pos create_record_version)

lemma byte_sum_create_record_64:
  "byte_sum (create_record s) 1 64 = byte_sum (create_record s) 1 63"
  using byte_sum_Suc [of 1 63 "create_record s"] by (simp add: create_record_pad)

lemma record_valid_make_record: "record_valid (make_record s)"
  unfolding record_valid_iff
  by (simp only: make_record_version make_record_checksum byte_sum_make_record [OF zero_less_one]
      byte_sum_create_record_64 simp_thms)




lemma length_read_block [simp]: "length (spiflash_read_block fl off n) = n"
  by (simp add: spiflash_read_block_def)

lemma nth_read_block: "j < n \<Longrightarrow> spiflash_read_block fl off n ! j = cells fl (off + j)"
  by (simp add: spiflash_read_block_def)

lemma length_read_slot [simp]: "length (read_slot pd fl i) = 64"
  by (simp add: read_slot_def sizeof_storedsettings_t_def)

lemma nth_read_slot:
  "j < 64 \<Longrightarrow> read_slot pd fl i ! j = cells fl (SETTINGS_OFFSET pd + 256 * i + j)"
  by (simp add: read_slot_def sizeof_storedsettings_t_def nth_read_block)

lemma slot_erased_iff:
  "slot_erased pd fl i \<longleftrightarrow> (\<forall>j<256. cells fl (SETTINGS_OFFSET pd + 256 * i + j) = 0xFF)"
  by (auto simp add: slot_erased_def list_all_length nth_read_block)

lemma slot_erased_read: "slot_erased pd fl i \<Longrightarrow> read_slot pd fl i = replicate 64 0xFF"
  by (rule nth_equalityI) (simp_all add: nth_read_slot slot_erased_iff)

lemma slot_erased_blank: "slot_erased pd fl i \<Longrightarrow> slot_blank pd fl i"
  by (simp add: slot_blank_def slot_erased_read get8_def layout_defs)

lemma blank_not_valid: "slot_blank pd fl i \<Longrightarrow> \<not> record_valid (read_slot pd fl i)"
  by (simp add: slot_blank_def record_valid_iff)

lemma scan_from_step:
  "i < 256 \<Longrightarrow> scan_from pd fl i =
     (if record_valid (read_slot pd fl i) then (i, Some (read_slot pd fl i))
      else if \<not> slot_blank pd fl i then (i, None)
      else scan_from pd fl (Suc i))"
  by (subst scan_from.simps) (auto simp add: Let_def read_slot_def slot_blank_def)

lemma scan_from_end: "scan_from pd fl 256 = (256, None)"
  by (subst scan_from.simps) simp

lemma scan_from_skip:
  "k \<le> 256 \<Longrightarrow> \<forall>j<k. slot_blank pd fl j \<Longrightarrow> scan_from pd fl 0 = scan_from pd fl k"
proof (induction k)
  case 0
  show ?case by simp
next
  case (Suc k)
  then have "scan_from pd fl 0 = scan_from pd fl k" by simp
  also have "\<dots> = scan_from pd fl (Suc k)"
    using Suc.prems by (simp add: scan_from_step [of k] blank_not_valid)
  finally show ?case .
qed

lemma scan_found:
  assumes "k < 256" "\<forall>j<k. slot_blank pd fl j" "record_valid (read_slot pd fl k)"
  shows "scan_from pd fl 0 = (k, Some (read_slot pd fl k))"
  using assms scan_from_skip [of k pd fl] by (simp add: scan_from_step [of k])

lemma scan_stopped:
  assumes "k < 256" "\<forall>j<k. slot_blank pd fl j" "\<not> record_valid (read_slot pd fl k)"
    "\<not> slot_blank pd fl k"
  shows "scan_from pd fl 0 = (k, None)"
  using assms scan_from_skip [of k pd fl] by (simp add: scan_from_step [of k])

lemma scan_empty:
  assumes "\<forall>j<256. slot_blank pd fl j"
  shows "scan_from pd fl 0 = (256, None)"
  using assms scan_from_skip [of 256 pd fl] by (simp add: scan_from_end)


lemma fold_update_all:
  "n \<le> length vs \<Longrightarrow>
   fold (\<lambda>i vs. vs[i := g i]) [0..<n] vs = map g [0..<n] @ drop n vs"
proof (induction n)
  case 0
  show ?case by simp
next
  case (Suc n)
  then have "n < length vs" by simp
  then have "drop n vs = vs ! n # drop (Suc n) vs"
    by (simp add: Cons_nth_drop_Suc)
  with Suc show ?case
    by (simp add: list_update_append)
qed

lemma byte_and_ff: "(x :: uint8_t) AND 0xFF = x"
proof -
  have "(0xFF :: uint8_t) = - 1" by simp
  then show ?thesis by (simp only: and.right_neutral)
qed

lemma settings_load_found:
  assumes "scan_from pd (flash s) 0 = (k, Some rs)"
    and "length (video_settings s) = VIDMODE_COUNT"
  shows "current_setid (settings_load pd s) = of_nat k"
    and "video_settings (settings_load pd s) =
           map (\<lambda>i. get32 (off_video_settings + 4 * i) rs) [0..<VIDMODE_COUNT]"
    and "osdbg_settings (settings_load pd s) = get32 off_osdbg_settings rs"
    and "mode_switch_delay (settings_load pd s) = get32 off_mode_switch_delay rs"
    and "resbox_enabled (settings_load pd s) \<longleftrightarrow> get8 off_flags rs AND SET_FLAG_RESBOX \<noteq> 0"
    and "audio_volume (settings_load pd s) = get8 off_volume rs"
    and "audio_mute (settings_load pd s) \<longleftrightarrow> get8 off_flags rs AND SET_FLAG_MUTE \<noteq> 0"
    and "ir_codes (settings_load pd s) =
           map (\<lambda>i. get32 (off_ir_codes + 4 * i) rs) [0..<NUM_IRCODES]"
    and "picture_brightness (settings_load pd s) =
           (if 5 \<le> get8 off_version rs then get8 off_brightness rs else picture_brightness s)"
    and "picture_contrast (settings_load pd s) =
           (if 5 \<le> get8 off_version rs then get8 off_contrast rs else picture_contrast s)"
    and "picture_saturation (settings_load pd s) =
           (if 5 \<le> get8 off_version rs then get8 off_saturation rs else picture_saturation s)"
    and "flash (settings_load pd s) = flash s"
  using assms
  by (simp_all add: settings_load_def Let_def update_imagecontrols_def fold_update_all byte_and_ff)

lemma settings_load_none:
  assumes "scan_from pd (flash s) 0 = (k, None)"
  shows "settings_load pd s = s\<lparr>current_setid := of_nat k\<rparr>"
  using assms by (simp add: settings_load_def)

lemma make_record_flag_bits:
  "get8 off_flags (make_record s) AND SET_FLAG_RESBOX \<noteq> 0 \<longleftrightarrow> resbox_enabled s"
  "get8 off_flags (make_record s) AND SET_FLAG_MUTE \<noteq> 0 \<longleftrightarrow> audio_mute s"
  by (simp_all add: get8_make_record off_pos create_record_flags SET_FLAG_RESBOX_def
      SET_FLAG_MUTE_def)

lemma make_record_video_list:
  "length (video_settings s) = VIDMODE_COUNT \<Longrightarrow>
   map (\<lambda>i. get32 (off_video_settings + 4 * i) (make_record s)) [0..<VIDMODE_COUNT] =
     video_settings s"
  by (rule nth_equalityI)
    (simp_all add: get32_make_record off_pos create_record_video VIDMODE_COUNT_def)

lemma make_record_ir_list:
  "length (ir_codes s) = NUM_IRCODES \<Longrightarrow>
   map (\<lambda>i. get32 (off_ir_codes + 4 * i) (make_record s)) [0..<NUM_IRCODES] = ir_codes s"
  by (rule nth_equalityI)
    (simp_all add: get32_make_record off_pos create_record_ir NUM_IRCODES_def)

lemma make_record_fields:
  "get32 off_osdbg_settings (make_record s) = osdbg_settings s"
  "get32 off_mode_switch_delay (make_record s) = mode_switch_delay s"
  "get8 off_volume (make_record s) = audio_volume s"
  "get8 off_brightness (make_record s) = picture_brightness s"
  "get8 off_contrast (make_record s) = picture_contrast s"
  "get8 off_saturation (make_record s) = picture_saturation s"
  by (simp_all add: get8_make_record get32_make_record off_pos create_record_osdbg
      create_record_delay create_record_volume create_record_picture)

lemma load_make_record:
  assumes "scan_from pd (flash t) 0 = (k, Some (make_record s))"
    and "arrays_ok s" and "arrays_ok t"
  shows "saved_settings (settings_load pd t) = saved_settings s"
  using assms(2,3)
  by (simp add: saved_settings_def arrays_ok_def settings_load_found [OF assms(1)]
      make_record_video_list make_record_ir_list make_record_flag_bits make_record_version
      make_record_fields)

subsection \<open>The flash and the save path\<close>

lemma cells_erase:
  "cells (spiflash_erase_sector fl base) a =
     (if base \<le> a \<and> a < base + 65536 then 0xFF else cells fl a)"
  by (simp add: spiflash_erase_sector_def SECTOR_SIZE_def)

lemma cells_write:
  "cells (spiflash_write_page fl off d) a =
     (if off \<le> a \<and> a < off + length d then cells fl a AND d ! (a - off) else cells fl a)"
  by (simp add: spiflash_write_page_def)

lemma erase_cycles_erase [simp]:
  "erase_cycles (spiflash_erase_sector fl base) = Suc (erase_cycles fl)"
  by (simp add: spiflash_erase_sector_def)

lemma erase_cycles_write [simp]:
  "erase_cycles (spiflash_write_page fl off d) = erase_cycles fl"
  by (simp add: spiflash_write_page_def)

lemma slot_erased_erase:
  "i < 256 \<Longrightarrow> slot_erased pd (spiflash_erase_sector fl (SETTINGS_OFFSET pd)) i"
  by (simp add: slot_erased_iff cells_erase)

lemma slot_erased_write_other:
  "i \<noteq> j \<Longrightarrow> length d \<le> 256 \<Longrightarrow>
   slot_erased pd (spiflash_write_page fl (SETTINGS_OFFSET pd + 256 * j) d) i = slot_erased pd fl i"
  by (auto simp add: slot_erased_iff cells_write)

lemma read_slot_write_other:
  "i \<noteq> j \<Longrightarrow> length d \<le> 256 \<Longrightarrow>
   read_slot pd (spiflash_write_page fl (SETTINGS_OFFSET pd + 256 * j) d) i = read_slot pd fl i"
  by (rule nth_equalityI) (auto simp add: nth_read_slot cells_write)

lemma byte_ff_and: "(0xFF :: uint8_t) AND x = x"
proof -
  have "(0xFF :: uint8_t) = - 1" by simp
  then show ?thesis by (simp only: and.left_neutral)
qed

lemma read_slot_write_same:
  "slot_erased pd fl i \<Longrightarrow> length d = 64 \<Longrightarrow>
   read_slot pd (spiflash_write_page fl (SETTINGS_OFFSET pd + 256 * i) d) i = d"
  by (rule nth_equalityI) (auto simp add: nth_read_slot cells_write slot_erased_iff byte_ff_and)

lemma settings_save_erase:
  "current_setid s = 0 \<Longrightarrow>
   settings_save pd s =
     s\<lparr>current_setid := 255,
       flash := spiflash_write_page (spiflash_erase_sector (flash s) (SETTINGS_OFFSET pd))
                  (SETTINGS_OFFSET pd + 256 * 255) (make_record s)\<rparr>"
  by (simp add: settings_save_def Let_def)

lemma settings_save_no_erase:
  "current_setid s \<noteq> 0 \<Longrightarrow>
   settings_save pd s =
     s\<lparr>current_setid := current_setid s - 1,
       flash := spiflash_write_page (flash s)
                  (SETTINGS_OFFSET pd + 256 * unat (current_setid s - 1)) (make_record s)\<rparr>"
  by (simp add: settings_save_def Let_def)



lemma erase_then_write:
  assumes "length d = 64" and "j < 256"
  shows "read_slot pd (spiflash_write_page (spiflash_erase_sector fl (SETTINGS_OFFSET pd))
           (SETTINGS_OFFSET pd + 256 * j) d) j = d \<and>
         (\<forall>i<256. i \<noteq> j \<longrightarrow>
            slot_erased pd (spiflash_write_page (spiflash_erase_sector fl (SETTINGS_OFFSET pd))
              (SETTINGS_OFFSET pd + 256 * j) d) i)"
  using assms
  by (simp add: read_slot_write_same slot_erased_erase slot_erased_write_other)

subsection \<open>Single-bit errors\<close>

lemma flip_bit_changes: "k < 8 \<Longrightarrow> flip_bit k (x :: uint8_t) \<noteq> x"
proof
  assume k: "k < 8" and eq: "flip_bit k x = x"
  from k have "bit (flip_bit k x) k \<longleftrightarrow> \<not> bit x k"
    by (simp add: bit_flip_bit_iff)
  with eq show False by simp
qed

lemma lt8_cases:
  "k < (8::nat) \<Longrightarrow> k = 0 \<or> k = 1 \<or> k = 2 \<or> k = 3 \<or> k = 4 \<or> k = 5 \<or> k = 6 \<or> k = 7"
  by arith

lemma flip_version_5: "k < 8 \<Longrightarrow> flip_bit k (5 :: uint8_t) = (if k = 0 then 4 else flip_bit k 5) \<and>
   (0 < k \<longrightarrow> flip_bit k (5 :: uint8_t) \<noteq> 4 \<and> flip_bit k (5 :: uint8_t) \<noteq> 5)"
  by (drule lt8_cases) (auto simp add: flip_bit_eq_xor)

lemma flip_version_4: "k < 8 \<Longrightarrow> flip_bit k (4 :: uint8_t) = (if k = 0 then 5 else flip_bit k 4) \<and>
   (0 < k \<longrightarrow> flip_bit k (4 :: uint8_t) \<noteq> 4 \<and> flip_bit k (4 :: uint8_t) \<noteq> 5)"
  by (drule lt8_cases) (auto simp add: flip_bit_eq_xor)

lemma byte_ff: "(0xFF :: uint8_t) = - 1"
  by simp

lemma sum_after_version_5_to_4: "(a :: uint8_t) - 5 + 4 = a + r \<longleftrightarrow> r = 0xFF"
proof -
  have "a - 5 + 4 = a + r \<longleftrightarrow> a + (- 1) = a + r" by (simp add: algebra_simps)
  also have "\<dots> \<longleftrightarrow> r = - 1" by (simp only: add_left_cancel) auto
  finally show ?thesis by (simp only: byte_ff)
qed

lemma sum_after_version_4_to_5: "(a :: uint8_t) + r - 4 + 5 = a \<longleftrightarrow> r = 0xFF"
proof -
  have "a + r - 4 + 5 = a \<longleftrightarrow> a + (r + 1) = a + 0" by (simp add: algebra_simps)
  also have "\<dots> \<longleftrightarrow> r + 1 = 0" by (simp only: add_left_cancel)
  also have "\<dots> \<longleftrightarrow> r = - 1" by (simp add: eq_neg_iff_add_eq_0)
  finally show ?thesis by (simp only: byte_ff)
qed

lemma replaced_byte_changes_sum: "x' \<noteq> x \<Longrightarrow> (a :: uint8_t) - x + x' \<noteq> a"
  by (simp add: algebra_simps)

lemma byte_sum_63:
  "byte_sum rs 1 63 = byte_sum rs 1 60 + (rs ! 60 + rs ! 61 + rs ! 62)"
proof -
  have "byte_sum rs 1 63 = byte_sum rs 1 62 + rs ! 62"
    using byte_sum_Suc [of 1 62 rs] by simp
  also have "byte_sum rs 1 62 = byte_sum rs 1 61 + rs ! 61"
    using byte_sum_Suc [of 1 61 rs] by simp
  also have "byte_sum rs 1 61 = byte_sum rs 1 60 + rs ! 60"
    using byte_sum_Suc [of 1 60 rs] by simp
  finally show ?thesis by (simp add: add.assoc)
qed

lemma flip_checksum_byte:
  assumes "record_valid rs" and "length rs = 64" and "k < 8"
  shows "\<not> record_valid (flip_record_bit off_checksum k rs)"
proof -
  let ?rs = "flip_record_bit off_checksum k rs"
  have v: "get8 off_version ?rs = get8 off_version rs"
    by (simp add: flip_record_bit_def get8_def layout_defs)
  have c: "get8 off_checksum ?rs = flip_bit k (get8 off_checksum rs)"
    using assms(2) by (simp add: flip_record_bit_def get8_def layout_defs)
  have s: "byte_sum ?rs 1 n = byte_sum rs 1 n" for n
    by (simp add: flip_record_bit_def layout_defs byte_sum_update_out)
  from assms(1,3) show ?thesis
    unfolding record_valid_iff v c s
    using flip_bit_changes [of k "get8 off_checksum rs"] by auto
qed

lemma flip_payload_byte:
  assumes "record_valid rs" and "length rs = 64" and "k < 8"
    and "off_version < p" and "p < unat (version_size (get8 off_version rs))"
  shows "\<not> record_valid (flip_record_bit p k rs)"
proof -
  let ?rs = "flip_record_bit p k rs"
  let ?n = "unat (version_size (get8 off_version rs))"
  from assms(4) have p1: "1 < p" by (simp add: layout_defs)
  have n: "?n \<le> 64" by (simp add: version_size_def SETTINGS_SIZE_V4_def SETTINGS_SIZE_V5_def)
  have v: "get8 off_version ?rs = get8 off_version rs"
    using p1 by (simp add: flip_record_bit_def get8_def layout_defs)
  have c: "get8 off_checksum ?rs = get8 off_checksum rs"
    using p1 by (simp add: flip_record_bit_def get8_def layout_defs)
  have s: "byte_sum ?rs 1 ?n = byte_sum rs 1 ?n - rs ! p + flip_bit k (rs ! p)"
    unfolding flip_record_bit_def using p1 assms(2,5) n
    by (intro byte_sum_update_in) simp_all
  have ne: "byte_sum ?rs 1 ?n \<noteq> byte_sum rs 1 ?n"
    unfolding s using flip_bit_changes [OF assms(3), of "rs ! p"] by (rule replaced_byte_changes_sum)
  have valid: "record_valid r \<longleftrightarrow>
      (get8 off_version r = 5 \<or> get8 off_version r = 4) \<and>
      byte_sum r 1 (unat (version_size (get8 off_version r))) = get8 off_checksum r" for r
    by (auto simp add: record_valid_def Let_def SETTINGS_VERSION_def version_size_def
        SETTINGS_SIZE_V4_def SETTINGS_SIZE_V5_def)
  from assms(1) have "byte_sum rs 1 ?n = get8 off_checksum rs"
    by (simp add: valid)
  with ne show ?thesis
    by (simp add: valid [of ?rs] v c)
qed

lemma flip_version_byte:
  assumes "record_valid rs" and "length rs = 64" and "k < 8"
  shows "record_valid (flip_record_bit off_version k rs) \<longleftrightarrow>
           k = 0 \<and> get8 off_brightness rs + get8 off_contrast rs + get8 off_saturation rs = 0xFF"
proof -
  let ?rs = "flip_record_bit off_version k rs"
  have v: "get8 off_version ?rs = flip_bit k (get8 off_version rs)"
    using assms(2) by (simp add: flip_record_bit_def get8_def layout_defs)
  have c: "get8 off_checksum ?rs = get8 off_checksum rs"
    by (simp add: flip_record_bit_def get8_def layout_defs)
  have s: "byte_sum ?rs 1 60 = byte_sum rs 1 60 - get8 off_version rs + flip_bit k (get8 off_version rs)"
    unfolding flip_record_bit_def get8_def off_version_def using assms(2)
    by (intro byte_sum_update_in) simp_all
  have pic: "get8 off_brightness rs + get8 off_contrast rs + get8 off_saturation rs =
      rs ! 60 + rs ! 61 + rs ! 62"
    by (simp add: get8_def layout_defs)
  have tail: "?rs ! 60 + ?rs ! 61 + ?rs ! 62 = rs ! 60 + rs ! 61 + rs ! 62"
    by (simp add: flip_record_bit_def layout_defs)
  from assms(1) consider
      (v5) "get8 off_version rs = 5" "byte_sum rs 1 63 = get8 off_checksum rs"
    | (v4) "get8 off_version rs = 4" "byte_sum rs 1 60 = get8 off_checksum rs"
    unfolding record_valid_iff by blast
  then show ?thesis
  proof cases
    case v5
    show ?thesis
    proof (cases "k = 0")
      case True
      then have f: "flip_bit k (5 :: uint8_t) = 4" by (simp add: flip_bit_eq_xor)
      have v': "get8 off_version ?rs = 4"
        by (simp only: v v5 f)
      have s': "byte_sum ?rs 1 60 = byte_sum rs 1 60 - 5 + 4"
        by (simp only: s v5 f)
      have chk: "get8 off_checksum ?rs = byte_sum rs 1 60 + (rs ! 60 + rs ! 61 + rs ! 62)"
        by (simp only: c v5(2) [symmetric] byte_sum_63)
      have "record_valid ?rs \<longleftrightarrow> byte_sum ?rs 1 60 = get8 off_checksum ?rs"
        unfolding record_valid_iff [of ?rs] v' by simp
      also have "\<dots> \<longleftrightarrow> rs ! 60 + rs ! 61 + rs ! 62 = 0xFF"
        by (simp only: s' chk sum_after_version_5_to_4)
      finally show ?thesis using True by (simp only: pic simp_thms)
    next
      case False
      with flip_version_5 [OF assms(3)] v5 show ?thesis
        unfolding record_valid_iff v by simp
    qed
  next
    case v4
    show ?thesis
    proof (cases "k = 0")
      case True
      then have f: "flip_bit k (4 :: uint8_t) = 5" by (simp add: flip_bit_eq_xor)
      have v': "get8 off_version ?rs = 5"
        by (simp only: v v4 f)
      have s': "byte_sum ?rs 1 63 = byte_sum rs 1 60 + (rs ! 60 + rs ! 61 + rs ! 62) - 4 + 5"
        by (simp only: byte_sum_63 [of ?rs] tail s v4 f) (simp add: algebra_simps)
      have chk: "get8 off_checksum ?rs = byte_sum rs 1 60"
        by (simp only: c v4(2))
      have "record_valid ?rs \<longleftrightarrow> byte_sum ?rs 1 63 = get8 off_checksum ?rs"
        unfolding record_valid_iff [of ?rs] v' by simp
      also have "\<dots> \<longleftrightarrow> rs ! 60 + rs ! 61 + rs ! 62 = 0xFF"
        by (simp only: s' chk sum_after_version_4_to_5)
      finally show ?thesis using True by (simp only: pic simp_thms)
    next
      case False
      with flip_version_4 [OF assms(3)] v4 show ?thesis
        unfolding record_valid_iff v by simp
    qed
  qed
qed

subsection \<open>Programmed slots and the concrete states\<close>

lemma slot_erased_erased_flash: "slot_erased pd erased_flash i"
  by (simp add: slot_erased_iff erased_flash_def)

lemma read_slot_program_same:
  "slot_erased pd fl i \<Longrightarrow> length d \<le> 64 \<Longrightarrow>
   read_slot pd (program_slot pd fl i d) i = d @ replicate (64 - length d) 0xFF"
  by (rule nth_equalityI)
    (auto simp add: nth_read_slot cells_write slot_erased_iff byte_ff_and program_slot_def
      nth_append)

lemma read_slot_program_other:
  "i \<noteq> j \<Longrightarrow> length d \<le> 256 \<Longrightarrow> read_slot pd (program_slot pd fl j d) i = read_slot pd fl i"
  by (simp add: program_slot_def read_slot_write_other)

lemma slot_erased_program_other:
  "i \<noteq> j \<Longrightarrow> length d \<le> 256 \<Longrightarrow> slot_erased pd (program_slot pd fl j d) i = slot_erased pd fl i"
  by (simp add: program_slot_def slot_erased_write_other)

lemma erase_cycles_program [simp]: "erase_cycles (program_slot pd fl i d) = erase_cycles fl"
  by (simp add: program_slot_def)






lemma read_zeroed_slot0:
  "read_slot example_portdefs (flash zeroed_slot0_sys) 0 = replicate 64 0"
  by (simp add: zeroed_slot0_sys_def read_slot_program_same slot_erased_erased_flash)

subsection \<open>The concrete records and the legacy layout\<close>

lemma length_flip [simp]: "length (flip_record_bit p k rs) = length rs"
  by (simp add: flip_record_bit_def)

lemma read_slot_full:
  "slot_erased pd fl i \<Longrightarrow> length d = 64 \<Longrightarrow> read_slot pd (program_slot pd fl i d) i = d"
  by (simp add: read_slot_program_same)

lemma length_damaged: "length damaged_record = 64"
  by (simp add: damaged_record_def length_make_record)

lemma damaged_invalid: "\<not> record_valid damaged_record"
  unfolding damaged_record_def
  by (rule flip_checksum_byte) (simp_all add: record_valid_make_record length_make_record)

lemma damaged_not_blank: "get8 off_version damaged_record \<noteq> 0xFF"
proof -
  have "get8 off_version damaged_record = get8 off_version (make_record example_sys)"
    by (simp add: damaged_record_def flip_record_bit_def get8_def layout_defs)
  then show ?thesis by (simp add: make_record_version)
qed

lemma length_stray: "length stray_record = 64"
  by (simp add: stray_record_def)

lemma stray_bytes:
  "get8 off_version stray_record = 0xFF" "get8 off_checksum stray_record = 0xFF"
  "stray_record ! 2 = 0"
  by (simp_all add: stray_record_def get8_def layout_defs)

lemma read_stray_slot0: "read_slot example_portdefs stray_flash 0 = stray_record"
  by (simp add: stray_flash_def read_slot_full slot_erased_program_other
      slot_erased_erased_flash length_make_record length_stray)

lemma read_stray_slot1: "read_slot example_portdefs stray_flash 1 = make_record example_sys"
  by (simp add: stray_flash_def read_slot_full read_slot_program_other
      slot_erased_erased_flash length_make_record length_stray)

lemma stray_slot0_blank: "slot_blank example_portdefs stray_flash 0"
  by (simp add: slot_blank_def read_stray_slot0 stray_bytes)

lemma stray_slot0_written: "\<not> slot_erased example_portdefs stray_flash 0"
proof
  assume "slot_erased example_portdefs stray_flash 0"
  then have "read_slot example_portdefs stray_flash 0 = replicate 64 0xFF"
    by (rule slot_erased_read)
  then have "stray_record ! 2 = (replicate 64 0xFF :: uint8_t list) ! 2"
    by (simp only: read_stray_slot0)
  then show False by (simp add: stray_bytes)
qed

lemma byte_sum_cong:
  "(\<And>j. lo \<le> j \<Longrightarrow> j < hi \<Longrightarrow> xs ! j = ys ! j) \<Longrightarrow> byte_sum xs lo hi = byte_sum ys lo hi"
  unfolding byte_sum_def by (rule fold_cong) auto

lemma get32_cong:
  "(\<And>j. j < 4 \<Longrightarrow> xs ! (a + j) = ys ! (a + j)) \<Longrightarrow> get32 a xs = get32 a ys"
proof -
  assume h: "\<And>j. j < 4 \<Longrightarrow> xs ! (a + j) = ys ! (a + j)"
  from h [of 0] h [of 1] h [of 2] h [of 3] show ?thesis
    by (simp add: get32_def)
qed

lemma length_legacy_record: "length (legacy_record s) = 60"
  by (simp add: legacy_record_def Let_def SETTINGS_SIZE_V4_def length_create_record)

lemma legacy_record_nth:
  "0 < j \<Longrightarrow> j < 60 \<Longrightarrow> legacy_record s ! j = put8 off_version 4 (create_record s) ! j"
  by (simp add: legacy_record_def Let_def SETTINGS_SIZE_V4_def put8_def [of 0]
      off_checksum_def)

lemma legacy_record_checksum:
  "legacy_record s ! 0 = byte_sum (legacy_record s) 1 60"
proof -
  let ?b = "take 60 (put8 off_version 4 (create_record s))"
  have "legacy_record s = ?b[0 := byte_sum ?b 1 60]"
    by (simp add: legacy_record_def Let_def SETTINGS_SIZE_V4_def put8_def [of 0]
        off_checksum_def)
  moreover have "byte_sum (?b[0 := byte_sum ?b 1 60]) 1 60 = byte_sum ?b 1 60"
    by (rule byte_sum_update_out) simp
  moreover have "(?b[0 := byte_sum ?b 1 60]) ! 0 = byte_sum ?b 1 60"
    by (simp add: length_create_record)
  ultimately show ?thesis by simp
qed

lemma legacy_slot:
  assumes "take 60 rs = legacy_record s"
  shows "get8 off_version rs = 4" and "record_valid rs"
    and "get8 off_flags rs = get8 off_flags (create_record s)"
    and "get8 off_volume rs = audio_volume s"
    and "get32 off_osdbg_settings rs = osdbg_settings s"
    and "get32 off_mode_switch_delay rs = mode_switch_delay s"
    and "i < 6 \<Longrightarrow> get32 (off_video_settings + 4 * i) rs = video_settings s ! i"
    and "i < 6 \<Longrightarrow> get32 (off_ir_codes + 4 * i) rs = ir_codes s ! i"
proof -
  have nth: "rs ! j = legacy_record s ! j" if "j < 60" for j
    using that assms by (metis nth_take)
  have body: "rs ! j = put8 off_version 4 (create_record s) ! j" if "0 < j" "j < 60" for j
    using that by (simp add: nth legacy_record_nth)
  have g8: "get8 a rs = get8 a (put8 off_version 4 (create_record s))" if "0 < a" "a < 60" for a
    using that by (simp add: get8_def body)
  have g32: "get32 a rs = get32 a (create_record s)" if "1 < a" "a + 4 \<le> 60" for a
  proof -
    have "get32 a rs = get32 a (put8 off_version 4 (create_record s))"
      using that by (intro get32_cong body) simp_all
    also have "\<dots> = get32 a (create_record s)"
      using that by (simp add: get32_put8_other off_version_def)
    finally show ?thesis .
  qed
  show v: "get8 off_version rs = 4"
    by (simp add: g8 off_version_def get8_put8 length_create_record)
  have "byte_sum rs 1 60 = byte_sum (legacy_record s) 1 60"
    by (rule byte_sum_cong) (simp add: nth)
  also have "\<dots> = legacy_record s ! 0" by (simp only: legacy_record_checksum)
  also have "\<dots> = get8 off_checksum rs" by (simp add: get8_def off_checksum_def nth)
  finally show "record_valid rs"
    unfolding record_valid_iff v by simp
  show "get8 off_flags rs = get8 off_flags (create_record s)"
    by (simp add: g8 off_flags_def get8_put8 off_version_def)
  show "get8 off_volume rs = audio_volume s"
    using create_record_volume [of s]
    by (simp add: g8 off_volume_def get8_put8 off_version_def)
  show "get32 off_osdbg_settings rs = osdbg_settings s"
    using g32 [of off_osdbg_settings] by (simp add: create_record_osdbg) (simp add: layout_defs)
  show "get32 off_mode_switch_delay rs = mode_switch_delay s"
    using g32 [of off_mode_switch_delay] by (simp add: create_record_delay) (simp add: layout_defs)
  show "get32 (off_video_settings + 4 * i) rs = video_settings s ! i" if "i < 6"
    using that g32 [of "off_video_settings + 4 * i"]
    by (simp add: create_record_video) (simp add: layout_defs)
  show "get32 (off_ir_codes + 4 * i) rs = ir_codes s ! i" if "i < 6"
    using that g32 [of "off_ir_codes + 4 * i"]
    by (simp add: create_record_ir) (simp add: layout_defs)
qed

subsection \<open>Loading what was saved\<close>

lemma settings_init_keeps:
  "flash (settings_init pd s) = flash s"
  "length (video_settings (settings_init pd s)) = length (video_settings s)"
  "picture_brightness (settings_init pd s) = 0"
  "picture_contrast (settings_init pd s) = 0"
  "picture_saturation (settings_init pd s) = 0"
  by (simp_all add: settings_init_def Let_def)

lemma read_legacy_slot:
  "slot_erased pd fl i \<Longrightarrow>
   read_slot pd (program_slot pd fl i (legacy_record s)) i = legacy_record s @ replicate 4 0xFF"
  by (simp add: read_slot_program_same length_legacy_record)

lemma take_legacy_slot: "take 60 (legacy_record s @ replicate 4 0xFF) = legacy_record s"
  by (simp add: length_legacy_record)

lemma scan_vivid:
  "scan_from example_portdefs (flash vivid_sys) 0 =
     (7, Some (legacy_record other_sys @ replicate 4 0xFF))"
proof -
  let ?pd = example_portdefs and ?fl = "flash vivid_sys"
  have fl: "?fl = program_slot ?pd erased_flash 7 (legacy_record other_sys)"
    by (simp add: vivid_sys_def)
  have r: "read_slot ?pd ?fl 7 = legacy_record other_sys @ replicate 4 0xFF"
    unfolding fl by (rule read_legacy_slot) (rule slot_erased_erased_flash)
  have v: "record_valid (read_slot ?pd ?fl 7)"
    unfolding r by (rule legacy_slot(2)) (rule take_legacy_slot)
  have b: "\<forall>j<7. slot_blank ?pd ?fl j"
    unfolding fl
    by (simp add: slot_erased_blank slot_erased_program_other slot_erased_erased_flash
        length_legacy_record)
  have "scan_from ?pd ?fl 0 = (7, Some (read_slot ?pd ?fl 7))"
    using b v by (intro scan_found) simp_all
  then show ?thesis by (simp only: r)
qed

lemma scan_tinted:
  "scan_from example_portdefs (flash tinted_sys) 0 =
     (0, Some (legacy_record other_sys @ replicate 4 0xFF))"
proof -
  let ?pd = example_portdefs and ?fl = "flash tinted_sys"
  have fl: "?fl = program_slot ?pd erased_flash 0 (legacy_record other_sys)"
    by (simp add: tinted_sys_def)
  have r: "read_slot ?pd ?fl 0 = legacy_record other_sys @ replicate 4 0xFF"
    unfolding fl by (rule read_legacy_slot) (rule slot_erased_erased_flash)
  have v: "record_valid (read_slot ?pd ?fl 0)"
    unfolding r by (rule legacy_slot(2)) (rule take_legacy_slot)
  have "scan_from ?pd ?fl 0 = (0, Some (read_slot ?pd ?fl 0))"
    using v by (intro scan_found) simp_all
  then show ?thesis by (simp only: r)
qed

lemma example_arrays: "arrays_ok example_sys" "arrays_ok other_sys" "arrays_ok tinted_sys"
  "arrays_ok vivid_sys"
  by (simp_all add: arrays_ok_def example_sys_def other_sys_def tinted_sys_def vivid_sys_def
      VIDMODE_COUNT_def NUM_IRCODES_def)

lemma load_legacy_record:
  assumes "scan_from pd (flash t) 0 = (k, Some rs)" and "take 60 rs = legacy_record s"
    and "arrays_ok s" and "arrays_ok t"
  shows "saved_settings (settings_load pd t) =
           saved_settings (s\<lparr>picture_brightness := picture_brightness t,
                               picture_contrast := picture_contrast t,
                               picture_saturation := picture_saturation t\<rparr>)"
proof -
  note f = legacy_slot [OF assms(2)]
  from assms(3,4) have len: "length (video_settings t) = VIDMODE_COUNT"
    "length (video_settings s) = 6" "length (ir_codes s) = 6"
    by (simp_all add: arrays_ok_def VIDMODE_COUNT_def NUM_IRCODES_def)
  have vid: "map (\<lambda>i. get32 (off_video_settings + 4 * i) rs) [0..<VIDMODE_COUNT] = video_settings s"
    using len by (intro nth_equalityI) (simp_all add: VIDMODE_COUNT_def f(7))
  have ir: "map (\<lambda>i. get32 (off_ir_codes + 4 * i) rs) [0..<NUM_IRCODES] = ir_codes s"
    using len by (intro nth_equalityI) (simp_all add: NUM_IRCODES_def f(8))
  have fl: "get8 off_flags rs AND SET_FLAG_RESBOX \<noteq> 0 \<longleftrightarrow> resbox_enabled s"
    "get8 off_flags rs AND SET_FLAG_MUTE \<noteq> 0 \<longleftrightarrow> audio_mute s"
    by (simp_all add: f(3) create_record_flags SET_FLAG_RESBOX_def SET_FLAG_MUTE_def)
  show ?thesis
    by (simp add: saved_settings_def settings_load_found [OF assms(1) len(1)] vid ir fl f(1,4,5,6))
qed

lemma save_then_scan:
  assumes "unat (current_setid s) \<le> 256"
    and "\<forall>j<unat (current_setid s). slot_erased pd (flash s) j"
  shows "\<exists>k. scan_from pd (flash (settings_save pd s)) 0 = (k, Some (make_record s))"
proof (cases "current_setid s = 0")
  case True
  let ?fl = "flash (settings_save pd s)"
  from erase_then_write [of "make_record s" 255 pd "flash s"]
  have r: "read_slot pd ?fl 255 = make_record s" and e: "\<forall>i<255. slot_erased pd ?fl i"
    by (simp_all add: settings_save_erase [OF True] length_make_record)
  have "scan_from pd ?fl 0 = (255, Some (read_slot pd ?fl 255))"
    using e by (intro scan_found) (simp_all add: slot_erased_blank r record_valid_make_record)
  then show ?thesis by (simp add: r)
next
  case False
  let ?k = "unat (current_setid s) - 1"
  let ?fl = "flash (settings_save pd s)"
  from False have pos: "0 < unat (current_setid s)" by (simp add: unat_gt_0)
  from False have k: "unat (current_setid s - 1) = ?k" by (rule unat_minus_one)
  have fl: "?fl = program_slot pd (flash s) ?k (make_record s)"
    by (simp add: settings_save_no_erase [OF False] program_slot_def k)
  from pos assms(2) have ek: "slot_erased pd (flash s) ?k" by simp
  have r: "read_slot pd ?fl ?k = make_record s"
    unfolding fl using ek by (rule read_slot_full) (rule length_make_record)
  have b: "\<forall>j<?k. slot_blank pd ?fl j"
    unfolding fl using assms(2)
    by (simp add: slot_erased_blank slot_erased_program_other length_make_record)
  have v: "record_valid (read_slot pd ?fl ?k)"
    by (simp only: r record_valid_make_record)
  have "scan_from pd ?fl 0 = (?k, Some (read_slot pd ?fl ?k))"
    using b pos assms(1) v by (intro scan_found) simp_all
  then show ?thesis by (simp only: r) blast
qed

lemma scan_two_records:
  "scan_from example_portdefs two_records_flash 0 = (3, Some (make_record other_sys))"
proof -
  let ?pd = example_portdefs and ?fl = two_records_flash
  have r3: "read_slot ?pd ?fl 3 = make_record other_sys"
    by (simp add: two_records_flash_def read_slot_full slot_erased_program_other
        slot_erased_erased_flash length_make_record length_legacy_record)
  have v: "record_valid (read_slot ?pd ?fl 3)"
    by (simp only: r3 record_valid_make_record)
  have b: "\<forall>j<3. slot_blank ?pd ?fl j"
    by (simp add: two_records_flash_def slot_erased_blank slot_erased_program_other
        slot_erased_erased_flash length_make_record length_legacy_record)
  have "scan_from ?pd ?fl 0 = (3, Some (read_slot ?pd ?fl 3))"
    using b v by (intro scan_found) simp_all
  then show ?thesis by (simp only: r3)
qed

subsection \<open>Programming a slot that is not erased\<close>

lemma make_record_cong:
  "saved_settings a = saved_settings b \<Longrightarrow> make_record a = make_record b"
  by (simp add: saved_settings_def make_record_def create_record_def)

lemma nth_read_slot_program_same:
  "j < 64 \<Longrightarrow> length d = 64 \<Longrightarrow>
   read_slot pd (program_slot pd fl i d) i ! j = read_slot pd fl i ! j AND d ! j"
  by (simp add: nth_read_slot cells_write program_slot_def)

lemma example_checksum: "byte_sum (create_record example_sys) 1 64 = 88"
  by code_simp

lemma overwritten_invalid: "\<not> record_valid overwritten_record"
  by code_simp

lemma overwritten_version: "get8 off_version overwritten_record = 5"
  by (simp add: overwritten_record_def get8_def off_version_def)

lemma stray_over_record:
  "read_slot example_portdefs
     (program_slot example_portdefs stray_flash 0 (make_record example_sys)) 0 =
   overwritten_record"
proof (rule nth_equalityI)
  show "length (read_slot example_portdefs
     (program_slot example_portdefs stray_flash 0 (make_record example_sys)) 0) =
     length overwritten_record"
    by (simp add: overwritten_record_def)
next
  fix j
  assume "j < length (read_slot example_portdefs
     (program_slot example_portdefs stray_flash 0 (make_record example_sys)) 0)"
  then have j: "j < 64" by simp
  have "get8 off_checksum (make_record example_sys) = 88"
    by (simp only: make_record_checksum example_checksum)
  then have c: "make_record example_sys ! 0 = 88"
    by (simp add: get8_def off_checksum_def)
  have v: "make_record example_sys ! 1 = 5"
    using make_record_version [of example_sys] by (simp add: get8_def off_version_def)
  have g: "read_slot example_portdefs
     (program_slot example_portdefs stray_flash 0 (make_record example_sys)) 0 ! j =
     stray_record ! j AND make_record example_sys ! j"
    using j by (simp add: nth_read_slot_program_same length_make_record read_stray_slot0)
  from j consider "j = 0" | "j = 1" | "2 \<le> j" "j < 64" by linarith
  then show "read_slot example_portdefs
     (program_slot example_portdefs stray_flash 0 (make_record example_sys)) 0 ! j =
     overwritten_record ! j"
  proof cases
    case 1
    with g c show ?thesis
      by (simp add: stray_record_def overwritten_record_def)
  next
    case 2
    with g v show ?thesis
      by (simp add: stray_record_def overwritten_record_def)
  next
    case 3
    with g show ?thesis
      by (simp add: stray_record_def overwritten_record_def nth_Cons')
  qed
qed

section \<open>Properties\<close>

text \<open>
  Claim C1 (round trip of the record codec), as stated: decoding a legacy version 4
  record would restore the settings with the picture controls at their default
  values. The load of a version 4 record does not assign the picture controls: a live
  brightness of 9 is still 9 afterwards.
\<close>

theorem legacy_decode_keeps_live_brightness:
  "scan_from example_portdefs (flash tinted_sys) 0 =
     (0, Some (legacy_record other_sys @ replicate 4 0xFF)) \<and>
   take 60 (legacy_record other_sys @ replicate 4 0xFF) = legacy_record other_sys \<and>
   record_valid (legacy_record other_sys @ replicate 4 0xFF) \<and>
   picture_brightness (settings_load example_portdefs tinted_sys) = 9 \<and>
   picture_brightness (settings_load example_portdefs tinted_sys) \<noteq> 0"
proof -
  let ?rs = "legacy_record other_sys @ replicate 4 0xFF"
  have v: "get8 off_version ?rs = 4" and ok: "record_valid ?rs"
    by (rule legacy_slot [OF take_legacy_slot])+
  have len: "length (video_settings tinted_sys) = VIDMODE_COUNT"
    using example_arrays(3) by (simp add: arrays_ok_def)
  have "picture_brightness (settings_load example_portdefs tinted_sys) = 9"
    by (simp add: settings_load_found [OF scan_tinted len] v) (simp add: tinted_sys_def)
  with scan_tinted ok take_legacy_slot [of other_sys] show ?thesis by simp
qed

text \<open>
  Claim C1, amended. For states whose arrays have their declared lengths: when the
  scan of \<open>settings_load\<close> finds the record that \<open>settings_save\<close> builds from a state
  \<open>s\<close>, the load restores exactly the saved settings of \<open>s\<close>, whatever the live
  settings were before; this holds in particular when the record went through the
  flash by a \<open>settings_save\<close> whose target slots were erased. When the scan finds the
  legacy version 4 record of \<open>s\<close>, the load restores every setting of \<open>s\<close> but the
  three picture controls, which keep the values they had before the load.
\<close>

theorem record_round_trip:
  assumes "arrays_ok s" and "arrays_ok t"
  shows "(scan_from pd (flash t) 0 = (k, Some (make_record s)) \<longrightarrow>
            saved_settings (settings_load pd t) = saved_settings s) \<and>
         (unat (current_setid s) \<le> 256 \<and>
            (\<forall>j<unat (current_setid s). slot_erased pd (flash s) j) \<longrightarrow>
            saved_settings (settings_load pd (t\<lparr>flash := flash (settings_save pd s)\<rparr>)) =
              saved_settings s) \<and>
         (scan_from pd (flash t) 0 = (k, Some rs) \<and> take 60 rs = legacy_record s \<longrightarrow>
            saved_settings (settings_load pd t) =
              saved_settings (s\<lparr>picture_brightness := picture_brightness t,
                                  picture_contrast := picture_contrast t,
                                  picture_saturation := picture_saturation t\<rparr>))"
proof (intro conjI impI)
  assume "scan_from pd (flash t) 0 = (k, Some (make_record s))"
  then show "saved_settings (settings_load pd t) = saved_settings s"
    using assms by (rule load_make_record)
next
  let ?t = "t\<lparr>flash := flash (settings_save pd s)\<rparr>"
  assume "unat (current_setid s) \<le> 256 \<and>
    (\<forall>j<unat (current_setid s). slot_erased pd (flash s) j)"
  then obtain k' where "scan_from pd (flash (settings_save pd s)) 0 = (k', Some (make_record s))"
    using save_then_scan [of s pd] by blast
  then have "scan_from pd (flash ?t) 0 = (k', Some (make_record s))" by simp
  moreover from assms(2) have "arrays_ok ?t" by (simp add: arrays_ok_def)
  ultimately show "saved_settings (settings_load pd ?t) = saved_settings s"
    using assms(1) by (intro load_make_record)
next
  assume "scan_from pd (flash t) 0 = (k, Some rs) \<and> take 60 rs = legacy_record s"
  then have "scan_from pd (flash t) 0 = (k, Some rs)" and "take 60 rs = legacy_record s"
    by blast+
  then show "saved_settings (settings_load pd t) =
      saved_settings (s\<lparr>picture_brightness := picture_brightness t,
                          picture_contrast := picture_contrast t,
                          picture_saturation := picture_saturation t\<rparr>)"
    using assms by (rule load_legacy_record)
qed

theorem record_round_trip_witness:
  "saved_settings (settings_load example_portdefs (example_sys\<lparr>flash := two_records_flash\<rparr>)) =
     saved_settings other_sys \<and>
   saved_settings (settings_load example_portdefs
     (example_sys\<lparr>flash := flash (settings_save example_portdefs
        (other_sys\<lparr>current_setid := 256\<rparr>))\<rparr>)) = saved_settings other_sys \<and>
   saved_settings (settings_load example_portdefs tinted_sys) =
     saved_settings (other_sys\<lparr>picture_brightness := 9, picture_contrast := 0,
                                picture_saturation := 0\<rparr>)"
proof -
  let ?pd = example_portdefs
  let ?t = "example_sys\<lparr>flash := two_records_flash\<rparr>"
  let ?s = "other_sys\<lparr>current_setid := 256\<rparr>"
  let ?rs = "legacy_record other_sys @ replicate 4 0xFF"
  have at: "arrays_ok ?t" and as: "arrays_ok ?s"
    using example_arrays by (simp_all add: arrays_ok_def)
  have sc: "scan_from ?pd (flash ?t) 0 = (3, Some (make_record other_sys))"
    by (simp add: scan_two_records)
  have c: "unat (current_setid ?s) \<le> 256" by simp
  have e: "\<forall>j<unat (current_setid ?s). slot_erased ?pd (flash ?s) j"
    by (simp add: other_sys_def example_sys_def slot_erased_erased_flash)
  have ss: "saved_settings ?s = saved_settings other_sys"
    by (simp add: saved_settings_def)
  have pic: "picture_brightness tinted_sys = 9" "picture_contrast tinted_sys = 0"
    "picture_saturation tinted_sys = 0"
    by (simp_all add: tinted_sys_def example_sys_def)
  from record_round_trip [OF example_arrays(2) at, of ?pd 3]
    record_round_trip [OF as example_arrays(1), of ?pd]
    record_round_trip [OF example_arrays(2,3), of ?pd 0 ?rs]
    sc c e ss scan_tinted take_legacy_slot [of other_sys] pic
  show ?thesis by simp
qed

text \<open>
  Claim C2 (scan stop on corruption), as stated: with slot 0 erased, slot 1 valid and
  slot 2 holding a corrupted, written record, the scan would report no record. It does
  not: the scan runs in ascending order and returns the valid record of slot 1 before
  it reads slot 2.
\<close>

theorem scan_returns_valid_below_damaged:
  "slot_erased example_portdefs valid_below_damaged_flash 0 \<and>
   record_valid (read_slot example_portdefs valid_below_damaged_flash 1) \<and>
   \<not> record_valid (read_slot example_portdefs valid_below_damaged_flash 2) \<and>
   \<not> slot_erased example_portdefs valid_below_damaged_flash 2 \<and>
   scan_from example_portdefs valid_below_damaged_flash 0 = (1, Some (make_record example_sys))"
proof -
  let ?pd = example_portdefs and ?fl = valid_below_damaged_flash
  have e0: "slot_erased ?pd ?fl 0"
    by (simp add: valid_below_damaged_flash_def slot_erased_program_other slot_erased_erased_flash
        length_make_record length_damaged)
  have r1: "read_slot ?pd ?fl 1 = make_record example_sys"
    by (simp add: valid_below_damaged_flash_def read_slot_full slot_erased_program_other
        slot_erased_erased_flash length_make_record length_damaged)
  have r2: "read_slot ?pd ?fl 2 = damaged_record"
    by (simp add: valid_below_damaged_flash_def read_slot_full read_slot_program_other
        slot_erased_erased_flash length_make_record length_damaged)
  have n2: "\<not> slot_erased ?pd ?fl 2"
    using slot_erased_blank [of ?pd ?fl 2] damaged_not_blank
    by (auto simp add: slot_blank_def r2)
  have v1: "record_valid (read_slot ?pd ?fl 1)"
    by (simp only: r1 record_valid_make_record)
  have v2: "\<not> record_valid (read_slot ?pd ?fl 2)"
    by (simp only: r2 damaged_invalid simp_thms)
  have "scan_from ?pd ?fl 0 = (1, Some (read_slot ?pd ?fl 1))"
    using e0 v1 by (intro scan_found) (simp_all add: slot_erased_blank)
  then have "scan_from ?pd ?fl 0 = (1, Some (make_record example_sys))"
    by (simp only: r1)
  with e0 v1 v2 n2 show ?thesis by simp
qed

text \<open>
  Claim C2, amended. With slot 0 erased, the scan is decided by slot 1, whatever slot 2
  holds: a valid record in slot 1 is returned with the cursor at 1, and an invalid
  record in slot 1 whose version or checksum byte has been written stops the scan there
  with no record, also when slot 2 holds a valid record.
\<close>

theorem scan_stops_at_first_written_slot:
  assumes "slot_erased pd fl 0"
  shows "(record_valid (read_slot pd fl 1) \<longrightarrow>
            scan_from pd fl 0 = (1, Some (read_slot pd fl 1))) \<and>
         (\<not> record_valid (read_slot pd fl 1) \<and> \<not> slot_blank pd fl 1 \<longrightarrow>
            scan_from pd fl 0 = (1, None))"
  using assms scan_found [of 1 pd fl] scan_stopped [of 1 pd fl]
  by (simp add: slot_erased_blank)

theorem scan_stops_at_first_written_slot_witness:
  "slot_erased example_portdefs valid_below_damaged_flash 0 \<and>
   record_valid (read_slot example_portdefs valid_below_damaged_flash 1) \<and>
   scan_from example_portdefs valid_below_damaged_flash 0 =
     (1, Some (read_slot example_portdefs valid_below_damaged_flash 1)) \<and>
   slot_erased example_portdefs damaged_below_valid_flash 0 \<and>
   \<not> record_valid (read_slot example_portdefs damaged_below_valid_flash 1) \<and>
   \<not> slot_blank example_portdefs damaged_below_valid_flash 1 \<and>
   record_valid (read_slot example_portdefs damaged_below_valid_flash 2) \<and>
   scan_from example_portdefs damaged_below_valid_flash 0 = (1, None)"
proof -
  let ?pd = example_portdefs and ?fl = damaged_below_valid_flash
  have e0: "slot_erased ?pd ?fl 0"
    by (simp add: damaged_below_valid_flash_def slot_erased_program_other slot_erased_erased_flash
        length_make_record length_damaged)
  have r1: "read_slot ?pd ?fl 1 = damaged_record"
    by (simp add: damaged_below_valid_flash_def read_slot_full slot_erased_program_other
        slot_erased_erased_flash length_make_record length_damaged)
  have r2: "read_slot ?pd ?fl 2 = make_record example_sys"
    by (simp add: damaged_below_valid_flash_def read_slot_full read_slot_program_other
        slot_erased_erased_flash length_make_record length_damaged)
  have h1: "\<not> record_valid (read_slot ?pd ?fl 1)"
    by (simp only: r1 damaged_invalid simp_thms)
  have h2: "\<not> slot_blank ?pd ?fl 1"
    by (simp only: slot_blank_def r1 damaged_not_blank simp_thms)
  have v2: "record_valid (read_slot ?pd ?fl 2)"
    by (simp only: r2 record_valid_make_record)
  have e0': "slot_erased ?pd valid_below_damaged_flash 0"
    by (simp add: valid_below_damaged_flash_def slot_erased_program_other slot_erased_erased_flash
        length_make_record length_damaged)
  have "read_slot ?pd valid_below_damaged_flash 1 = make_record example_sys"
    by (simp add: valid_below_damaged_flash_def read_slot_full slot_erased_program_other
        slot_erased_erased_flash length_make_record length_damaged)
  then have v1: "record_valid (read_slot ?pd valid_below_damaged_flash 1)"
    by (simp only: record_valid_make_record)
  from scan_stops_at_first_written_slot [OF e0] scan_stops_at_first_written_slot [OF e0']
    e0 e0' h1 h2 v1 v2
  show ?thesis by simp
qed

text \<open>
  Claim C3 (erased-slot classification). An invalid slot lets the scan continue only
  when it is erased; a slot with a written byte stops it, as the comment in the loop
  says ("found an invalid, but non-empty record; stop here because we can only write to
  empty records"). The code tests only the version and the checksum byte, and misses a
  written slot whose first two bytes still read \<open>0xFF\<close>. On the flash whose slot 0
  reads \<open>0xFF\<close>, \<open>0xFF\<close> and then zeros and whose slot 1 holds a valid record, the
  scan goes past slot 0 and returns the record of slot 1 with the cursor at 1. The
  next \<open>settings_save\<close> then programs slot 0 without an erase, over its written
  bytes: the slot reads back an invalid record, and the following scan stops at
  slot 0 with no record although slot 1 still holds a valid one.
\<close>

theorem scan_skips_written_slot:
  "\<not> record_valid (read_slot example_portdefs (flash stray_sys) 0) \<and>
   \<not> slot_erased example_portdefs (flash stray_sys) 0 \<and>
   scan_from example_portdefs (flash stray_sys) 0 = (1, Some (make_record example_sys)) \<and>
   current_setid (settings_load example_portdefs stray_sys) = 1 \<and>
   saved_settings (settings_load example_portdefs stray_sys) = saved_settings example_sys \<and>
   current_setid (settings_save example_portdefs (settings_load example_portdefs stray_sys)) = 0 \<and>
   erase_cycles (flash (settings_save example_portdefs
     (settings_load example_portdefs stray_sys))) = erase_cycles (flash stray_sys) \<and>
   read_slot example_portdefs (flash (settings_save example_portdefs
     (settings_load example_portdefs stray_sys))) 0 = overwritten_record \<and>
   \<not> record_valid overwritten_record \<and>
   read_slot example_portdefs (flash (settings_save example_portdefs
     (settings_load example_portdefs stray_sys))) 1 = make_record example_sys \<and>
   scan_from example_portdefs (flash (settings_save example_portdefs
     (settings_load example_portdefs stray_sys))) 0 = (0, None)"
proof -
  let ?pd = example_portdefs
  let ?s1 = "settings_load ?pd stray_sys"
  let ?s2 = "settings_save ?pd ?s1"
  have fl: "flash stray_sys = stray_flash" by (simp add: stray_sys_def)
  have v1: "record_valid (read_slot ?pd stray_flash 1)"
    by (simp only: read_stray_slot1 record_valid_make_record)
  have "scan_from ?pd stray_flash 0 = (1, Some (read_slot ?pd stray_flash 1))"
    using v1 stray_slot0_blank by (intro scan_found) simp_all
  then have sc: "scan_from ?pd (flash stray_sys) 0 = (1, Some (make_record example_sys))"
    by (simp only: read_stray_slot1 fl)
  have ar: "arrays_ok stray_sys"
    using example_arrays(2) by (simp add: arrays_ok_def stray_sys_def)
  have len: "length (video_settings stray_sys) = VIDMODE_COUNT"
    using ar by (simp add: arrays_ok_def)
  have cur1: "current_setid ?s1 = 1" and fl1: "flash ?s1 = stray_flash"
    by (simp_all add: settings_load_found [OF sc len] fl)
  have sv: "saved_settings ?s1 = saved_settings example_sys"
    using sc example_arrays(1) ar by (rule load_make_record)
  then have mr: "make_record ?s1 = make_record example_sys"
    by (rule make_record_cong)
  have nz: "current_setid ?s1 \<noteq> 0" by (simp add: cur1)
  have cur2: "current_setid ?s2 = 0"
    by (simp add: settings_save_no_erase [OF nz] cur1)
  have fl2: "flash ?s2 = program_slot ?pd stray_flash 0 (make_record example_sys)"
    by (simp add: settings_save_no_erase [OF nz] cur1 fl1 mr program_slot_def)
  have r0: "read_slot ?pd (flash ?s2) 0 = overwritten_record"
    by (simp only: fl2 stray_over_record)
  have "read_slot ?pd (program_slot ?pd stray_flash 0 (make_record example_sys)) 1 =
      read_slot ?pd stray_flash 1"
    by (rule read_slot_program_other) (simp_all add: length_make_record)
  then have r1: "read_slot ?pd (flash ?s2) 1 = make_record example_sys"
    by (simp only: fl2 read_stray_slot1)
  have nb: "\<not> slot_blank ?pd (flash ?s2) 0"
    by (simp add: slot_blank_def r0 overwritten_version)
  have "scan_from ?pd (flash ?s2) 0 = (0, None)"
    using nb by (intro scan_stopped) (simp_all add: r0 overwritten_invalid)
  with sc cur1 sv cur2 r0 r1 overwritten_invalid stray_slot0_written
    blank_not_valid [OF stray_slot0_blank] show ?thesis
    by (simp add: fl fl2)
qed

text \<open>
  Claim C4 (checksum sensitivity), as stated: no single-bit change inside the declared
  size of a valid record would leave it valid. Inverting bit 0 of the version byte of
  the record saved from a state whose picture bytes sum to \<open>0xFF\<close> gives a valid
  record of version 4.
\<close>

theorem version_bit_flip_stays_valid:
  "record_valid (make_record other_sys) \<and>
   off_version < unat (version_size (get8 off_version (make_record other_sys))) \<and>
   record_valid (flip_record_bit off_version 0 (make_record other_sys)) \<and>
   get8 off_version (flip_record_bit off_version 0 (make_record other_sys)) = 4"
proof -
  let ?rs = "make_record other_sys"
  have v: "record_valid ?rs" by (rule record_valid_make_record)
  have n: "unat (version_size (get8 off_version ?rs)) = 63"
    by (simp add: make_record_version version_size_def SETTINGS_SIZE_V5_def)
  have pic: "get8 off_brightness ?rs + get8 off_contrast ?rs + get8 off_saturation ?rs = 0xFF"
    by (simp add: make_record_fields other_sys_def)
  have f: "get8 off_version (flip_record_bit off_version 0 ?rs) = flip_bit 0 (get8 off_version ?rs)"
    by (simp add: flip_record_bit_def get8_def layout_defs length_make_record)
  have f4: "get8 off_version (flip_record_bit off_version 0 ?rs) = 4"
    by (simp only: f make_record_version) (simp add: flip_bit_eq_xor)
  have "record_valid (flip_record_bit off_version 0 ?rs)"
    using flip_version_byte [of ?rs 0] v pic by (simp add: length_make_record)
  with v n f4 show ?thesis
    by (simp add: off_version_def)
qed

text \<open>
  Claim C4, amended. For a valid record and a bit position inside the declared size of
  its version, the record with that bit inverted is valid only in one case: the bit is
  bit 0 of the version byte (which turns version 5 into 4 and 4 into 5) and the three
  bytes at the picture-control offsets sum to \<open>0xFF\<close> modulo 256. Every other
  single-bit change makes the record invalid.
\<close>

theorem checksum_sensitivity:
  assumes "record_valid rs" and "length rs = sizeof_storedsettings_t"
    and "p < unat (version_size (get8 off_version rs))" and "k < 8"
  shows "record_valid (flip_record_bit p k rs) \<longleftrightarrow>
           p = off_version \<and> k = 0 \<and>
           get8 off_brightness rs + get8 off_contrast rs + get8 off_saturation rs = 0xFF"
proof -
  from assms(2) have len: "length rs = 64" by (simp add: sizeof_storedsettings_t_def)
  consider "p = off_checksum" | "p = off_version" | "off_version < p"
    unfolding off_checksum_def off_version_def by arith
  then show ?thesis
  proof cases
    case 1
    with flip_checksum_byte [OF assms(1) len assms(4)] show ?thesis
      by (simp add: layout_defs)
  next
    case 2
    with flip_version_byte [OF assms(1) len assms(4)] show ?thesis by simp
  next
    case 3
    with flip_payload_byte [OF assms(1) len assms(4) _ assms(3)] show ?thesis by simp
  qed
qed

theorem checksum_sensitivity_witness:
  "record_valid (make_record example_sys) \<and>
   \<not> record_valid (flip_record_bit off_volume 7 (make_record example_sys)) \<and>
   \<not> record_valid (flip_record_bit off_version 0 (make_record example_sys))"
proof -
  let ?rs = "make_record example_sys"
  have v: "record_valid ?rs" by (rule record_valid_make_record)
  have l: "length ?rs = sizeof_storedsettings_t"
    by (simp add: length_make_record sizeof_storedsettings_t_def)
  have n: "unat (version_size (get8 off_version ?rs)) = 63"
    by (simp add: make_record_version version_size_def SETTINGS_SIZE_V5_def)
  have pic: "get8 off_brightness ?rs + get8 off_contrast ?rs + get8 off_saturation ?rs = 0"
    by (simp add: make_record_fields example_sys_def)
  from checksum_sensitivity [OF v l, of off_volume 7] checksum_sensitivity [OF v l, of off_version 0]
    v n pic
  show ?thesis by (simp add: layout_defs)
qed

text \<open>
  Claim C5 (version migration), as stated: loading a valid version 4 record would
  yield the picture controls at their zero defaults. The load leaves them as they
  were: a live contrast of \<open>0xF0\<close> and saturation of \<open>0x10\<close> survive it.
\<close>

theorem legacy_load_keeps_picture_controls:
  "scan_from example_portdefs (flash vivid_sys) 0 =
     (7, Some (legacy_record other_sys @ replicate 4 0xFF)) \<and>
   record_valid (legacy_record other_sys @ replicate 4 0xFF) \<and>
   get8 off_version (legacy_record other_sys @ replicate 4 0xFF) = 4 \<and>
   picture_contrast (settings_load example_portdefs vivid_sys) = 0xF0 \<and>
   picture_saturation (settings_load example_portdefs vivid_sys) = 0x10 \<and>
   picture_contrast (settings_load example_portdefs vivid_sys) \<noteq> 0"
proof -
  let ?rs = "legacy_record other_sys @ replicate 4 0xFF"
  have v: "get8 off_version ?rs = 4" and ok: "record_valid ?rs"
    by (rule legacy_slot [OF take_legacy_slot])+
  have len: "length (video_settings vivid_sys) = VIDMODE_COUNT"
    using example_arrays(4) by (simp add: arrays_ok_def)
  have c: "picture_contrast (settings_load example_portdefs vivid_sys) = 0xF0"
    and s: "picture_saturation (settings_load example_portdefs vivid_sys) = 0x10"
    by (simp_all add: settings_load_found [OF scan_vivid len] v)
      (simp_all add: vivid_sys_def)
  from scan_vivid v ok c s show ?thesis by simp
qed

text \<open>
  Claim C5, amended. Loading a valid version 4 record takes the per-mode video
  settings, the OSD background, the mode-switch delay, the resbox flag, the volume, the
  mute flag and the IR codes from the record and leaves brightness, contrast and
  saturation at the values they had before the load; these are the zero defaults when
  the load runs on the state that \<open>settings_init\<close> has set up.
\<close>

theorem legacy_load:
  assumes "scan_from pd (flash t) 0 = (k, Some rs)" and "get8 off_version rs = 4"
    and "length (video_settings t) = VIDMODE_COUNT"
  shows "video_settings (settings_load pd t) =
           map (\<lambda>i. get32 (off_video_settings + 4 * i) rs) [0..<VIDMODE_COUNT] \<and>
         osdbg_settings (settings_load pd t) = get32 off_osdbg_settings rs \<and>
         mode_switch_delay (settings_load pd t) = get32 off_mode_switch_delay rs \<and>
         (resbox_enabled (settings_load pd t) \<longleftrightarrow> get8 off_flags rs AND SET_FLAG_RESBOX \<noteq> 0) \<and>
         audio_volume (settings_load pd t) = get8 off_volume rs \<and>
         (audio_mute (settings_load pd t) \<longleftrightarrow> get8 off_flags rs AND SET_FLAG_MUTE \<noteq> 0) \<and>
         ir_codes (settings_load pd t) =
           map (\<lambda>i. get32 (off_ir_codes + 4 * i) rs) [0..<NUM_IRCODES] \<and>
         picture_brightness (settings_load pd t) = picture_brightness t \<and>
         picture_contrast (settings_load pd t) = picture_contrast t \<and>
         picture_saturation (settings_load pd t) = picture_saturation t \<and>
         picture_brightness (settings_load pd (settings_init pd t)) = 0 \<and>
         picture_contrast (settings_load pd (settings_init pd t)) = 0 \<and>
         picture_saturation (settings_load pd (settings_init pd t)) = 0"
proof -
  have i: "scan_from pd (flash (settings_init pd t)) 0 = (k, Some rs)"
    "length (video_settings (settings_init pd t)) = VIDMODE_COUNT"
    using assms by (simp_all add: settings_init_keeps)
  show ?thesis
    by (simp add: settings_load_found [OF assms(1,3)] settings_load_found [OF i] assms(2)
        settings_init_keeps)
qed

theorem legacy_load_witness:
  "video_settings (settings_load example_portdefs vivid_sys) = video_settings other_sys \<and>
   audio_volume (settings_load example_portdefs vivid_sys) = 17 \<and>
   picture_contrast (settings_load example_portdefs vivid_sys) = 0xF0 \<and>
   picture_contrast (settings_load example_portdefs (settings_init example_portdefs vivid_sys)) = 0"
proof -
  let ?rs = "legacy_record other_sys @ replicate 4 0xFF"
  have v: "get8 off_version ?rs = 4"
    by (rule legacy_slot [OF take_legacy_slot])
  have len: "length (video_settings vivid_sys) = VIDMODE_COUNT"
    using example_arrays(4) by (simp add: arrays_ok_def)
  have vid: "map (\<lambda>i. get32 (off_video_settings + 4 * i) ?rs) [0..<VIDMODE_COUNT] =
      video_settings other_sys"
    using example_arrays(2)
    by (intro nth_equalityI)
      (simp_all add: arrays_ok_def VIDMODE_COUNT_def legacy_slot(7) [OF take_legacy_slot])
  have vol: "get8 off_volume ?rs = 17"
    by (simp add: legacy_slot(4) [OF take_legacy_slot] other_sys_def)
  have c: "picture_contrast vivid_sys = 0xF0" by (simp add: vivid_sys_def)
  from legacy_load [OF scan_vivid v len] vid vol c show ?thesis by simp
qed

text \<open>
  Claim C6 (exhaustion triggers erase). When \<open>settings_save\<close> runs with the cursor
  \<open>current_setid\<close> at 0, it erases the settings sector once, leaves the cursor at 255
  and programs the new record into slot 255 of the erased sector: afterwards slot 255
  reads back the record and every other slot is in the erased state.
\<close>

theorem exhaustion_triggers_erase:
  assumes "current_setid s = 0"
  shows "erase_cycles (flash (settings_save pd s)) = erase_cycles (flash s) + 1 \<and>
         current_setid (settings_save pd s) = 255 \<and>
         read_slot pd (flash (settings_save pd s)) 255 = make_record s \<and>
         (\<forall>i<255. slot_erased pd (flash (settings_save pd s)) i)"
  using erase_then_write [of "make_record s" 255 pd "flash s"]
  by (simp add: settings_save_erase [OF assms] length_make_record)

theorem exhaustion_triggers_erase_witness:
  "current_setid example_sys = 0 \<and>
   erase_cycles (flash (settings_save example_portdefs example_sys)) = 1 \<and>
   current_setid (settings_save example_portdefs example_sys) = 255 \<and>
   read_slot example_portdefs (flash (settings_save example_portdefs example_sys)) 255 =
     make_record example_sys \<and>
   slot_erased example_portdefs (flash (settings_save example_portdefs example_sys)) 0"
proof -
  have h: "current_setid example_sys = 0" by (simp add: example_sys_def)
  have e: "erase_cycles (flash example_sys) = 0" by (simp add: example_sys_def erased_flash_def)
  from exhaustion_triggers_erase [OF h, of example_portdefs] h e show ?thesis by simp
qed



text \<open>
  Claim C8 (newest wins). In a sector whose slots 3 and 5 hold valid records and
  whose slots 0, 1 and 2 are erased, the scan of \<open>settings_load\<close> returns the record
  of slot 3 and the cursor becomes 3.
\<close>

theorem newest_wins:
  assumes "\<forall>j<3. slot_erased pd (flash s) j"
    and "record_valid (read_slot pd (flash s) 3)" and "record_valid (read_slot pd (flash s) 5)"
  shows "scan_from pd (flash s) 0 = (3, Some (read_slot pd (flash s) 3)) \<and>
         current_setid (settings_load pd s) = 3"
proof -
  from assms have "scan_from pd (flash s) 0 = (3, Some (read_slot pd (flash s) 3))"
    by (intro scan_found) (simp_all add: slot_erased_blank)
  then show ?thesis by (simp add: settings_load_def Let_def update_imagecontrols_def)
qed

theorem newest_wins_witness:
  "record_valid (read_slot example_portdefs two_records_flash 3) \<and>
   get8 off_version (read_slot example_portdefs two_records_flash 3) = 5 \<and>
   record_valid (read_slot example_portdefs two_records_flash 5) \<and>
   get8 off_version (read_slot example_portdefs two_records_flash 5) = 4 \<and>
   scan_from example_portdefs (flash (example_sys\<lparr>flash := two_records_flash\<rparr>)) 0 =
     (3, Some (make_record other_sys)) \<and>
   current_setid (settings_load example_portdefs (example_sys\<lparr>flash := two_records_flash\<rparr>)) = 3"
proof -
  let ?s = "example_sys\<lparr>flash := two_records_flash\<rparr>"
  have r3: "read_slot example_portdefs two_records_flash 3 = make_record other_sys"
    by (simp add: two_records_flash_def read_slot_full slot_erased_program_other
        slot_erased_erased_flash length_make_record length_legacy_record)
  have "read_slot example_portdefs (program_slot example_portdefs erased_flash 5
          (legacy_record example_sys)) 5 = legacy_record example_sys @ replicate 4 0xFF"
    by (rule read_legacy_slot) (rule slot_erased_erased_flash)
  then have r5: "read_slot example_portdefs two_records_flash 5 =
      legacy_record example_sys @ replicate 4 0xFF"
    by (simp add: two_records_flash_def read_slot_program_other length_make_record)
  have h1: "\<forall>j<3. slot_erased example_portdefs (flash ?s) j"
    by (simp add: two_records_flash_def slot_erased_program_other slot_erased_erased_flash
        length_make_record length_legacy_record)
  have h2: "record_valid (read_slot example_portdefs (flash ?s) 3)"
    by (simp add: r3 record_valid_make_record)
  have h3: "record_valid (read_slot example_portdefs (flash ?s) 5)"
    by (simp add: r5 legacy_slot(2) [OF take_legacy_slot])
  have v3: "get8 off_version (read_slot example_portdefs two_records_flash 3) = 5"
    by (simp only: r3 make_record_version)
  have v5: "get8 off_version (read_slot example_portdefs two_records_flash 5) = 4"
    by (simp only: r5 legacy_slot(1) [OF take_legacy_slot])
  from newest_wins [OF h1 h2 h3] h2 h3 r3 v3 v5 show ?thesis by simp
qed

text \<open>
  Claim C9 (load is atomic on failure). When the scan of \<open>settings_load\<close> finds no
  valid record, the state after the load is the state before it with only
  \<open>current_setid\<close> recomputed: every live settings variable is unchanged.
\<close>

theorem load_failure_keeps_settings:
  assumes "snd (scan_from pd (flash s) 0) = None"
  shows "settings_load pd s = s\<lparr>current_setid := of_nat (fst (scan_from pd (flash s) 0))\<rparr>"
  using assms by (cases "scan_from pd (flash s) 0") (simp add: settings_load_none)

theorem load_failure_keeps_settings_witness:
  "snd (scan_from example_portdefs (flash example_sys) 0) = None \<and>
   settings_load example_portdefs example_sys = example_sys\<lparr>current_setid := 256\<rparr>"
proof -
  have s: "scan_from example_portdefs (flash example_sys) 0 = (256, None)"
    by (rule scan_empty) (simp add: example_sys_def slot_erased_erased_flash slot_erased_blank)
  then have h: "snd (scan_from example_portdefs (flash example_sys) 0) = None" by simp
  from load_failure_keeps_settings [OF h] s show ?thesis by simp
qed

text \<open>
  Claim C10 (corruption at slot 0 forces a full erase). When slot 0 holds a record
  that is invalid and whose version or checksum byte has been written, the boot scan
  stops there with the cursor at 0, and the next \<open>settings_save\<close> erases the whole
  sector, slot 0 included, before it programs the new record into slot 255.
\<close>

theorem corrupt_slot0_forces_erase:
  assumes "\<not> record_valid (read_slot pd (flash s) 0)" and "\<not> slot_blank pd (flash s) 0"
  shows "current_setid (settings_load pd s) = 0 \<and>
         erase_cycles (flash (settings_save pd (settings_load pd s))) = erase_cycles (flash s) + 1 \<and>
         current_setid (settings_save pd (settings_load pd s)) = 255 \<and>
         read_slot pd (flash (settings_save pd (settings_load pd s))) 255 = make_record s \<and>
         (\<forall>i<255. slot_erased pd (flash (settings_save pd (settings_load pd s))) i)"
proof -
  from assms have "scan_from pd (flash s) 0 = (0, None)"
    by (intro scan_stopped) simp_all
  then have s0: "settings_load pd s = s\<lparr>current_setid := 0\<rparr>"
    by (simp add: settings_load_none)
  have mk: "make_record (s\<lparr>current_setid := 0\<rparr>) = make_record s"
    by (simp add: make_record_def create_record_def)
  show ?thesis
    unfolding s0
    using erase_then_write [of "make_record s" 255 pd "flash s"]
    by (simp add: settings_save_erase length_make_record mk)
qed

theorem corrupt_slot0_forces_erase_witness:
  "\<not> record_valid (read_slot example_portdefs (flash zeroed_slot0_sys) 0) \<and>
   \<not> slot_blank example_portdefs (flash zeroed_slot0_sys) 0 \<and>
   current_setid (settings_load example_portdefs zeroed_slot0_sys) = 0 \<and>
   erase_cycles (flash (settings_save example_portdefs
     (settings_load example_portdefs zeroed_slot0_sys))) = 1 \<and>
   current_setid (settings_save example_portdefs
     (settings_load example_portdefs zeroed_slot0_sys)) = 255 \<and>
   read_slot example_portdefs (flash (settings_save example_portdefs
     (settings_load example_portdefs zeroed_slot0_sys))) 255 = make_record zeroed_slot0_sys \<and>
   slot_erased example_portdefs (flash (settings_save example_portdefs
     (settings_load example_portdefs zeroed_slot0_sys))) 0"
proof -
  have v: "get8 off_version (replicate 64 0) = (0 :: uint8_t)"
    by (simp add: get8_def layout_defs)
  have h1: "\<not> record_valid (read_slot example_portdefs (flash zeroed_slot0_sys) 0)"
    by (simp add: read_zeroed_slot0 record_valid_iff v)
  have h2: "\<not> slot_blank example_portdefs (flash zeroed_slot0_sys) 0"
    by (simp add: slot_blank_def read_zeroed_slot0 v)
  have e: "erase_cycles (flash zeroed_slot0_sys) = 0"
    by (simp add: zeroed_slot0_sys_def erased_flash_def)
  from corrupt_slot0_forces_erase [OF h1 h2] h1 h2 e show ?thesis by simp
qed

end
